theory Spec2Isabelle
  imports Main "HOL-Library.Word" "HOL-Library.Sublist" "HOL-Library.AList"
begin

unbundle bit_operations_syntax

section \<open>Basic types\<close>

text \<open>
  Go strings and byte slices are sequences of bytes; both are modelled by \<open>string\<close>
  (a list of 8-bit characters). \<open>uint64\<close>, \<open>int64\<close> and \<open>spanid.ID64\<close> are 64-bit
  words: the conversions between them (\<open>spanid.ID64(id)\<close>, \<open>int64(un)\<close>) keep the bit
  pattern, \<open>unat\<close> reads a word as unsigned and \<open>sint\<close> as two's complement.
\<close>

type_synonym byte = "8 word"
type_synonym uint64 = "64 word"
type_synonym int64 = "64 word"
type_synonym ID64 = "64 word"

record ID128 =
  High :: uint64
  Low :: uint64

text \<open>A run-time panic of the Go program (index or slice bound out of range).\<close>

datatype panic = IndexOutOfRange

section \<open>Go library functions used by the package\<close>

subsection \<open>encoding/hex\<close>

text \<open>\<open>hex.fromHexChar\<close> (the table \<open>reverseHexTable\<close>): \<open>None\<close> is an invalid byte.\<close>

definition fromHexChar :: "char \<Rightarrow> byte option" where
  "fromHexChar c =
     (let n = (of_char c :: nat) in
      if 48 \<le> n \<and> n \<le> 57 then Some (of_nat (n - 48))
      else if 97 \<le> n \<and> n \<le> 102 then Some (of_nat (n - 97 + 10))
      else if 65 \<le> n \<and> n \<le> 70 then Some (of_nat (n - 65 + 10))
      else None)"

datatype hex_error = InvalidByteError char | ErrLength

text \<open>
  \<open>hex.DecodeString\<close>: decodes pairs of hex digits from the left and, on malformed input,
  returns the bytes decoded before the error together with the error.
\<close>

fun hex_DecodeString :: "string \<Rightarrow> byte list \<times> hex_error option" where
  "hex_DecodeString [] = ([], None)"
| "hex_DecodeString [p] =
     (case fromHexChar p of
        None \<Rightarrow> ([], Some (InvalidByteError p))
      | Some a \<Rightarrow> ([], Some ErrLength))"
| "hex_DecodeString (p # q # rest) =
     (case fromHexChar p of
        None \<Rightarrow> ([], Some (InvalidByteError p))
      | Some a \<Rightarrow>
          (case fromHexChar q of
             None \<Rightarrow> ([], Some (InvalidByteError q))
           | Some b \<Rightarrow>
               (case hex_DecodeString rest of
                  (bs, err) \<Rightarrow> ((push_bit 4 a OR b) # bs, err))))"

text \<open>\<open>hextable = "0123456789abcdef"\<close>, indexed by a nibble.\<close>

definition hextable :: "byte \<Rightarrow> char" where
  "hextable v = ''0123456789abcdef'' ! unat (v AND 0x0f)"

fun hex_EncodeToString :: "byte list \<Rightarrow> string" where
  "hex_EncodeToString [] = []"
| "hex_EncodeToString (v # src) =
     hextable (drop_bit 4 v) # hextable (v AND 0x0f) # hex_EncodeToString src"

subsection \<open>encoding/binary, big endian\<close>

text \<open>\<open>binary.BigEndian.PutUint64\<close> on a fresh buffer of 8 bytes: the buffer's contents.\<close>

definition BigEndian_PutUint64 :: "uint64 \<Rightarrow> byte list" where
  "BigEndian_PutUint64 v =
     [ucast (drop_bit 56 v), ucast (drop_bit 48 v), ucast (drop_bit 40 v),
      ucast (drop_bit 32 v), ucast (drop_bit 24 v), ucast (drop_bit 16 v),
      ucast (drop_bit 8 v), ucast v]"

text \<open>\<open>binary.BigEndian.Uint64\<close> reads the first 8 bytes and panics on a shorter slice.\<close>

fun BigEndian_Uint64 :: "byte list \<Rightarrow> panic + uint64" where
  "BigEndian_Uint64 (b0 # b1 # b2 # b3 # b4 # b5 # b6 # b7 # _) =
     Inr (ucast b7 OR push_bit 8 (ucast b6) OR push_bit 16 (ucast b5)
          OR push_bit 24 (ucast b4) OR push_bit 32 (ucast b3) OR push_bit 40 (ucast b2)
          OR push_bit 48 (ucast b1) OR push_bit 56 (ucast b0))"
| "BigEndian_Uint64 _ = Inl IndexOutOfRange"

subsection \<open>strconv\<close>

definition isDigit :: "char \<Rightarrow> bool" where
  "isDigit c \<longleftrightarrow> 48 \<le> (of_char c :: nat) \<and> (of_char c :: nat) \<le> 57"

definition digitVal :: "char \<Rightarrow> nat" where
  "digitVal c = (of_char c :: nat) - 48"

definition digitChar :: "nat \<Rightarrow> char" where
  "digitChar d = char_of (48 + d)"

text \<open>\<open>strconv.FormatUint(i, 10)\<close>: the decimal digits, most significant first, no padding.\<close>

fun formatBits10 :: "nat \<Rightarrow> string" where
  "formatBits10 u =
     (if u < 10 then [digitChar u] else formatBits10 (u div 10) @ [digitChar (u mod 10)])"

declare formatBits10.simps [simp del]

definition FormatUint10 :: "uint64 \<Rightarrow> string" where
  "FormatUint10 i = formatBits10 (unat i)"

datatype num_error = ErrSyntax | ErrRange

text \<open>
  \<open>strconv.ParseUint(s, 10, 64)\<close>. \<open>cutoff\<close> is the smallest number whose tenfold exceeds
  \<open>maxUint64\<close>; the loop returns \<open>maxVal\<close> with a range error as soon as the value read so
  far overflows, and \<open>0\<close> with a syntax error at the first byte that is not a decimal digit.
\<close>

definition cutoff10 :: uint64 where
  "cutoff10 = 0xFFFFFFFFFFFFFFFF div 10 + 1"

definition maxVal64 :: uint64 where
  "maxVal64 = 0xFFFFFFFFFFFFFFFF"

fun parseUint_loop :: "uint64 \<Rightarrow> string \<Rightarrow> uint64 \<times> num_error option" where
  "parseUint_loop n [] = (n, None)"
| "parseUint_loop n (c # cs) =
     (if \<not> isDigit c then (0, Some ErrSyntax)
      else if cutoff10 \<le> n then (maxVal64, Some ErrRange)
      else
        (let n10 = n * 10; n1 = n10 + of_nat (digitVal c) in
         if n1 < n10 then (maxVal64, Some ErrRange)
         else parseUint_loop n1 cs))"

definition ParseUint10 :: "string \<Rightarrow> uint64 \<times> num_error option" where
  "ParseUint10 s = (if s = [] then (0, Some ErrSyntax) else parseUint_loop 0 s)"

text \<open>
  \<open>strconv.ParseInt(s, 10, 64)\<close>: picks off a leading sign, converts the rest unsigned and
  checks the range against \<open>cutoff = 1 << 63\<close>. A syntax error gives \<open>0\<close>, a range error
  the nearest representable value.
\<close>

definition ParseInt10 :: "string \<Rightarrow> int64 \<times> num_error option" where
  "ParseInt10 s0 =
     (if s0 = [] then (0, Some ErrSyntax)
      else
        (let neg = (hd s0 = CHR ''-'');
             s = (if hd s0 = CHR ''+'' \<or> hd s0 = CHR ''-'' then tl s0 else s0);
             (un, err) = ParseUint10 s;
             cutoff = (push_bit 63 1 :: uint64)
         in if err = Some ErrSyntax then (0, err)
            else if \<not> neg \<and> cutoff \<le> un then (cutoff - 1, Some ErrRange)
            else if neg \<and> cutoff < un then (- cutoff, Some ErrRange)
            else (if neg then - un else un, None)))"

section \<open>ID codec\<close>

definition FormatSpanID :: "uint64 \<Rightarrow> bool \<Rightarrow> string" where
  "FormatSpanID i base16 =
     (if base16 then hex_EncodeToString (BigEndian_PutUint64 i) else FormatUint10 i)"

definition zeroID128 :: ID128 where
  "zeroID128 = \<lparr>High = 0, Low = 0\<rparr>"

definition HexTraceid2ID128 :: "string \<Rightarrow> panic + ID128" where
  "HexTraceid2ID128 s =
     (case hex_DecodeString s of
        (b, _) \<Rightarrow>
          if length b = 16 then
            (case BigEndian_Uint64 (drop 8 b) of
               Inl e \<Rightarrow> Inl e
             | Inr lo \<Rightarrow>
                 (case BigEndian_Uint64 (take 8 b) of
                    Inl e \<Rightarrow> Inl e
                  | Inr hi \<Rightarrow> Inr \<lparr>High = hi, Low = lo\<rparr>))
          else Inr zeroID128)"

definition DecTraceOrSpanid2ID64 :: "string \<Rightarrow> ID64" where
  "DecTraceOrSpanid2ID64 s =
     (if prefix ''-'' s then fst (ParseInt10 s) else fst (ParseUint10 s))"

definition HexSpanid2ID64 :: "string \<Rightarrow> panic + ID64" where
  "HexSpanid2ID64 s =
     (case hex_DecodeString s of
        (b, _) \<Rightarrow> if length b = 8 then BigEndian_Uint64 b else Inr 0)"


subsection \<open>Decimal value of a digit string\<close>

text \<open>
  The number a run of decimal digits denotes, continuing from \<open>n\<close>; it is used to state
  what the parsers compute, on unbounded naturals.
\<close>

definition decFrom :: "nat \<Rightarrow> string \<Rightarrow> nat" where
  "decFrom n cs = foldl (\<lambda>a c. a * 10 + digitVal c) n cs"

definition decimal :: "string \<Rightarrow> bool" where
  "decimal s \<longleftrightarrow> s \<noteq> [] \<and> list_all isDigit s"



section \<open>Go string functions\<close>

text \<open>\<open>strings.Index\<close> / \<open>bytes.Index\<close>: the first position of \<open>sep\<close> in \<open>s\<close>, or \<open>-1\<close>.\<close>

fun strings_Index :: "string \<Rightarrow> string \<Rightarrow> int" where
  "strings_Index [] sep = (if sep = [] then 0 else - 1)"
| "strings_Index (x # xs) sep =
     (if prefix sep (x # xs) then 0
      else (let k = strings_Index xs sep in if k < 0 then - 1 else k + 1))"

text \<open>\<open>bytes.LastIndex\<close>: the last position of \<open>sep\<close> in \<open>s\<close>, or \<open>-1\<close>.\<close>

fun bytes_LastIndex :: "string \<Rightarrow> string \<Rightarrow> int" where
  "bytes_LastIndex [] sep = (if sep = [] then 0 else - 1)"
| "bytes_LastIndex (x # xs) sep =
     (let k = bytes_LastIndex xs sep in
      if 0 \<le> k then k + 1 else if prefix sep (x # xs) then 0 else - 1)"

text \<open>
  \<open>strings.Split(s, sep)\<close> for a non-empty separator (every call site passes a non-empty
  literal): cut at each occurrence of \<open>sep\<close>, left to right; the result is never empty.
\<close>

function strings_Split :: "string \<Rightarrow> string \<Rightarrow> string list" where
  "strings_Split s sep =
     (let m = strings_Index s sep in
      if m < 0 \<or> sep = [] then [s]
      else take (nat m) s # strings_Split (drop (nat m + length sep) s) sep)"
  by pat_completeness auto
termination
proof (relation "measure (\<lambda>(s, sep). length s)")
  show "wf (measure (\<lambda>(s, sep). length s))" by simp
next
  fix s sep :: string and m :: int
  assume m: "m = strings_Index s sep" and "\<not> (m < 0 \<or> sep = [])"
  then have "s \<noteq> []" and "sep \<noteq> []" by auto
  then have "length s - (nat m + length sep) < length s" by (cases s; cases sep) simp_all
  then show "((drop (nat m + length sep) s, sep), (s, sep)) \<in> measure (\<lambda>(s, sep). length s)"
    by simp
qed

declare strings_Split.simps [simp del]

text \<open>\<open>strings.SplitN(s, sep, 2)\<close>: cut at the first occurrence of \<open>sep\<close> only.\<close>

definition strings_SplitN2 :: "string \<Rightarrow> string \<Rightarrow> string list" where
  "strings_SplitN2 s sep =
     (let m = strings_Index s sep in
      if m < 0 then [s] else [take (nat m) s, drop (nat m + length sep) s])"

text \<open>
  \<open>strings.TrimSpace\<close> removes leading and trailing white space as defined by Unicode:
  the runes with \<open>unicode.IsSpace\<close>, here in their UTF-8 encodings. A byte that does
  not start (or end) the encoding of such a rune stops the trimming.
\<close>

definition spaceRunes :: "string list" where
  "spaceRunes =
     [[CHR 0x09], [CHR 0x0A], [CHR 0x0B], [CHR 0x0C], [CHR 0x0D], [CHR 0x20],
      [CHR 0xC2, CHR 0x85], [CHR 0xC2, CHR 0xA0], [CHR 0xE1, CHR 0x9A, CHR 0x80],
      [CHR 0xE2, CHR 0x80, CHR 0x80], [CHR 0xE2, CHR 0x80, CHR 0x81],
      [CHR 0xE2, CHR 0x80, CHR 0x82], [CHR 0xE2, CHR 0x80, CHR 0x83],
      [CHR 0xE2, CHR 0x80, CHR 0x84], [CHR 0xE2, CHR 0x80, CHR 0x85],
      [CHR 0xE2, CHR 0x80, CHR 0x86], [CHR 0xE2, CHR 0x80, CHR 0x87],
      [CHR 0xE2, CHR 0x80, CHR 0x88], [CHR 0xE2, CHR 0x80, CHR 0x89],
      [CHR 0xE2, CHR 0x80, CHR 0x8A], [CHR 0xE2, CHR 0x80, CHR 0xA8],
      [CHR 0xE2, CHR 0x80, CHR 0xA9], [CHR 0xE2, CHR 0x80, CHR 0xAF],
      [CHR 0xE2, CHR 0x81, CHR 0x9F], [CHR 0xE3, CHR 0x80, CHR 0x80]]"

fun trimLeading :: "string list \<Rightarrow> string \<Rightarrow> string" where
  "trimLeading runes [] = []"
| "trimLeading runes (c # cs) =
     (if [c] \<in> set runes then trimLeading runes cs
      else if take 2 (c # cs) \<in> set runes then trimLeading runes (drop 1 cs)
      else if take 3 (c # cs) \<in> set runes then trimLeading runes (drop 2 cs)
      else c # cs)"

definition strings_TrimSpace :: "string \<Rightarrow> string" where
  "strings_TrimSpace s = rev (trimLeading (map rev spaceRunes) (rev (trimLeading spaceRunes s)))"

section \<open>HTTP header parser\<close>

definition CRLF :: string where
  "CRLF = [CHR 0x0D, CHR 0x0A]"

text \<open>The \<open>switch\<close> on the request target: \<open>True\<close> when no branch returns \<open>nil\<close>.\<close>

definition uriAccepted :: "string \<Rightarrow> bool" where
  "uriAccepted uri =
     (if length uri > 8 \<and> take 8 uri = ''https://'' then strings_Index (drop 8 uri) ''/'' \<noteq> - 1
      else if length uri > 7 \<and> take 7 uri = ''http://'' then strings_Index (drop 7 uri) ''/'' \<noteq> - 1
      else if length uri > 0 \<and> take 1 uri = ''/'' then True
      else False)"

text \<open>
  A first line that \<open>GetHTTPHeader\<close> accepts: it holds no carriage return, does not
  start with \<open>0\<close>, and splits into three tokens, the second with an accepted target.
\<close>

definition acceptedRequestLine :: "string \<Rightarrow> bool" where
  "acceptedRequestLine rl \<longleftrightarrow>
     CHR 0x0D \<notin> set rl \<and> rl \<noteq> [] \<and> hd rl \<noteq> CHR ''0'' \<and>
     (case strings_Split rl '' '' of
        [method, target, version] \<Rightarrow>
          (case strings_Split target ''?'' of [] \<Rightarrow> False | uri # _ \<Rightarrow> uriAccepted uri)
      | _ \<Rightarrow> False)"

text \<open>The loop over the header lines: stop at the first line without a colon; the first
  occurrence of a name wins.\<close>

fun headerLoop :: "string list \<Rightarrow> (string \<rightharpoonup> string) \<Rightarrow> (string \<rightharpoonup> string)" where
  "headerLoop [] headers = headers"
| "headerLoop (v # hdr) headers =
     (case strings_SplitN2 v '':'' of
        [k, x] \<Rightarrow>
          headerLoop hdr (if headers k = None then headers(k \<mapsto> strings_TrimSpace x) else headers)
      | _ \<Rightarrow> headers)"

text \<open>
  \<open>GetHTTPHeader\<close>: \<open>Inl\<close> is a panic, \<open>Inr None\<close> the \<open>nil\<close> map and \<open>Inr (Some h)\<close> a
  header map. \<open>payload[0]\<close> is read before any length check.
\<close>

definition GetHTTPHeader :: "string \<Rightarrow> panic + (string \<rightharpoonup> string) option" where
  "GetHTTPHeader payload0 =
     (case payload0 of
        [] \<Rightarrow> Inl IndexOutOfRange
      | b0 # _ \<Rightarrow>
          if b0 = CHR ''0'' then Inr None
          else
            (let idx0 = bytes_LastIndex payload0 (CRLF @ CRLF) in
             if idx0 = 0 then Inr None
             else
               (let payload = (if idx0 > 0 then take (nat idx0) payload0 else payload0);
                    idx = strings_Index payload CRLF
                in if idx < 0 then Inr None
                   else
                     (case strings_Split (take (nat idx) payload) '' '' of
                        [method, target, version] \<Rightarrow>
                          (case strings_Split target ''?'' of
                             [] \<Rightarrow> Inl IndexOutOfRange
                           | uri # _ \<Rightarrow>
                               if uriAccepted uri
                               then Inr (Some (headerLoop
                                      (strings_Split (drop (nat idx + 2) payload) CRLF) Map.empty))
                               else Inr None)
                      | _ \<Rightarrow> Inr None))))"

section \<open>Trace-context extractor\<close>

text \<open>
  Modelled from the spec: \<open>SampledDataDog\<close> is defined in a file of the package that is not
  among the sources. The spec (4.D) says \<open>sampled = (numeric value > 0)\<close> of the
  sampling-priority header, malformed values degrading to zero.
\<close>

definition SampledDataDog :: "string \<Rightarrow> bool" where
  "SampledDataDog v = (case ParseInt10 v of (n, err) \<Rightarrow> err = None \<and> 0 < sint n)"

text \<open>
  Modelled from the spec: \<open>SampledW3C\<close> is defined in a file of the package that is not
  among the sources. The spec (4.D) says
  \<open>sampled = ((last-byte-hex-nibble of flags) & 1) != 0\<close>.
\<close>

definition SampledW3C :: "string \<Rightarrow> bool" where
  "SampledW3C flags =
     (if flags = [] then False
      else (case fromHexChar (last flags) of None \<Rightarrow> False | Some n \<Rightarrow> n AND 1 \<noteq> 0))"

text \<open>The result is \<open>(sampled, hexEnc, traceID, parentID)\<close>; a \<open>nil\<close> header map behaves as
  the empty map.\<close>

definition GetTraceInfo ::
  "(string \<rightharpoonup> string) \<Rightarrow> panic + (bool \<times> bool \<times> ID128 \<times> ID64)" where
  "GetTraceInfo headers =
     (case headers ''x-datadog-trace-id'' of
        Some tid \<Rightarrow>
          (let traceID = zeroID128\<lparr>Low := DecTraceOrSpanid2ID64 tid\<rparr>;
               parentID = (case headers ''x-datadog-parent-id'' of
                             Some psid \<Rightarrow> DecTraceOrSpanid2ID64 psid
                           | None \<Rightarrow> 0);
               sampled = (case headers ''x-datadog-sampling-priority'' of
                            Some v \<Rightarrow> SampledDataDog v
                          | None \<Rightarrow> False)
           in Inr (sampled, False, traceID, parentID))
      | None \<Rightarrow>
          (case headers ''traceparent'' of
             Some v \<Rightarrow>
               (case strings_Split v ''-'' of
                  [ver, tid, psid, flags] \<Rightarrow>
                    (case HexTraceid2ID128 tid of
                       Inl e \<Rightarrow> Inl e
                     | Inr traceID \<Rightarrow>
                         (case HexSpanid2ID64 psid of
                            Inl e \<Rightarrow> Inl e
                          | Inr parentID \<Rightarrow> Inr (SampledW3C flags, True, traceID, parentID)))
                | _ \<Rightarrow> Inr (False, False, zeroID128, 0))
           | None \<Rightarrow> Inr (False, False, zeroID128, 0)))"


section \<open>Process filter\<close>

record ProcSvcInfo =
  Name :: string
  Service :: string
  AllowTrace :: bool

text \<open>
  Modelled from the spec: the deleted-PID cache is a \<open>lru.Cache\<close> of the library
  \<open>github.com/golang/groupcache/lru\<close>, whose declaration is not among the sources. The
  spec describes a bounded LRU, the oldest entry evicted on overflow. The entries are
  kept most recently used first; \<open>MaxEntries = 0\<close> means no limit. \<open>Add\<close> on a present
  key moves the entry to the front and replaces its value; \<open>Get\<close> on a present key moves
  the entry to the front.
\<close>

record ('k, 'v) lru_Cache =
  MaxEntries :: int
  ll :: "('k \<times> 'v) list"

definition lru_New :: "int \<Rightarrow> ('k, 'v) lru_Cache" where
  "lru_New maxEntries = \<lparr>MaxEntries = maxEntries, ll = []\<rparr>"

definition lru_Add :: "'k \<Rightarrow> 'v \<Rightarrow> ('k, 'v) lru_Cache \<Rightarrow> ('k, 'v) lru_Cache" where
  "lru_Add key val c =
     (case map_of (ll c) key of
        Some _ \<Rightarrow> c\<lparr>ll := (key, val) # filter (\<lambda>e. fst e \<noteq> key) (ll c)\<rparr>
      | None \<Rightarrow>
          (let l = (key, val) # ll c in
           if MaxEntries c \<noteq> 0 \<and> int (length l) > MaxEntries c
           then c\<lparr>ll := butlast l\<rparr> else c\<lparr>ll := l\<rparr>))"

definition lru_Get :: "'k \<Rightarrow> ('k, 'v) lru_Cache \<Rightarrow> 'v option \<times> ('k, 'v) lru_Cache" where
  "lru_Get key c =
     (case map_of (ll c) key of
        Some v \<Rightarrow> (Some v, c\<lparr>ll := (key, v) # filter (\<lambda>e. fst e \<noteq> key) (ll c)\<rparr>)
      | None \<Rightarrow> (None, c))"

definition lru_Len :: "('k, 'v) lru_Cache \<Rightarrow> nat" where
  "lru_Len c = length (ll c)"

text \<open>
  The filter. A Go map that is only looked up is a partial function; \<open>RuleEnv\<close> is ranged
  over and is an association list in the order of the iteration; \<open>Pid2ProcInfo\<close> is an
  association list updated with \<open>AList.update\<close> and \<open>AList.delete\<close>, its length the
  \<open>len\<close> of the map. A value of type \<open>*ProcSvcInfo\<close> is an option, \<open>None\<close> the \<open>nil\<close>
  pointer. The mutex is not modelled: every operation runs as one step.
\<close>

record ProcessFilter =
  SvcAssignEnv :: "string list"
  RuleEnv :: "(string \<times> bool) list"
  RuleProcessName :: "string \<rightharpoonup> bool"
  RulePath :: "string \<rightharpoonup> bool"
  Pid2ProcInfo :: "(int \<times> ProcSvcInfo option) list"
  PidDeleted :: "(int, ProcSvcInfo option) lru_Cache"
  AnyProcess :: bool
  Disable :: bool

definition NewProcessFilter ::
  "string list \<Rightarrow> (string \<times> bool) list \<Rightarrow> (string \<rightharpoonup> bool) \<Rightarrow> bool \<Rightarrow> bool \<Rightarrow> ProcessFilter" where
  "NewProcessFilter svcAssignEnv ruleEnv ruleProcessName anyProcess disable =
     \<lparr>SvcAssignEnv = svcAssignEnv, RuleEnv = ruleEnv, RuleProcessName = ruleProcessName,
      RulePath = Map.empty, Pid2ProcInfo = [], PidDeleted = lru_New 1024,
      AnyProcess = anyProcess, Disable = disable\<rparr>"

text \<open>The first loop over \<open>RuleEnv\<close>: it stops at the first rule whose variable is set.\<close>

fun admitEnv :: "(string \<times> bool) list \<Rightarrow> (string \<times> string) list \<Rightarrow> bool \<Rightarrow> bool" where
  "admitEnv [] env filtered = filtered"
| "admitEnv ((k, allow) # rules) env filtered =
     (if map_of env k \<noteq> None then (if allow then True else filtered)
      else admitEnv rules env filtered)"

text \<open>The second loop over \<open>RuleEnv\<close>: every rule of polarity \<open>false\<close> whose variable is
  set clears the flag.\<close>

fun denyEnv :: "(string \<times> bool) list \<Rightarrow> (string \<times> string) list \<Rightarrow> bool \<Rightarrow> bool" where
  "denyEnv [] env filtered = filtered"
| "denyEnv ((k, allow) # rules) env filtered =
     denyEnv rules env (if map_of env k \<noteq> None \<and> \<not> allow then False else filtered)"

text \<open>The loop over \<open>SvcAssignEnv\<close>: the first variable that is set names the service.\<close>

fun assignService :: "string list \<Rightarrow> (string \<times> string) list \<Rightarrow> ProcSvcInfo \<Rightarrow> ProcSvcInfo" where
  "assignService [] env pinfo = pinfo"
| "assignService (k # ks) env pinfo =
     (case map_of env k of
        Some v \<Rightarrow> pinfo\<lparr>Service := v\<rparr>
      | None \<Rightarrow> assignService ks env pinfo)"

text \<open>A rule of \<open>RuleEnv\<close> applies when its variable is set in the environment.\<close>

definition ruleApplies :: "(string \<times> string) list \<Rightarrow> string \<times> bool \<Rightarrow> bool" where
  "ruleApplies env r \<longleftrightarrow> map_of env (fst r) \<noteq> None"

definition Filter ::
  "int \<Rightarrow> string \<Rightarrow> string \<Rightarrow> (string \<times> string) list \<Rightarrow> ProcessFilter \<Rightarrow> bool \<times> ProcessFilter" where
  "Filter pid name path env p =
     (let filtered = admitEnv (RuleEnv p) env False;
          filtered = (if RuleProcessName p name = Some True then True
                      else if RulePath p path \<noteq> None then True
                      else if AnyProcess p then True
                      else filtered);
          filtered = (if RuleProcessName p name = Some False then False else filtered);
          filtered = denyEnv (RuleEnv p) env filtered;
          filtered = (if Disable p then False else filtered);
          pinfo = \<lparr>Name = name, Service = name, AllowTrace = filtered\<rparr>;
          pinfo = (if length env > 0 \<and> length (SvcAssignEnv p) > 0
                   then assignService (SvcAssignEnv p) env pinfo else pinfo)
      in (filtered, p\<lparr>Pid2ProcInfo := AList.update pid (Some pinfo) (Pid2ProcInfo p)\<rparr>))"

text \<open>The record that \<open>Filter\<close> stores for the PID, given the admission it computed.\<close>

definition filterInfo ::
  "string \<Rightarrow> (string \<times> string) list \<Rightarrow> ProcessFilter \<Rightarrow> bool \<Rightarrow> ProcSvcInfo" where
  "filterInfo name env p filtered =
     (if length env > 0 \<and> length (SvcAssignEnv p) > 0
      then assignService (SvcAssignEnv p) env
             \<lparr>Name = name, Service = name, AllowTrace = filtered\<rparr>
      else \<lparr>Name = name, Service = name, AllowTrace = filtered\<rparr>)"

definition Delete :: "int \<Rightarrow> ProcessFilter \<Rightarrow> ProcessFilter" where
  "Delete pid p =
     (case map_of (Pid2ProcInfo p) pid of
        Some v \<Rightarrow>
          p\<lparr>Pid2ProcInfo := AList.delete pid (Pid2ProcInfo p),
            PidDeleted := lru_Add pid v (PidDeleted p)\<rparr>
      | None \<Rightarrow> p)"

definition GetProcInfo :: "int \<Rightarrow> ProcessFilter \<Rightarrow> (ProcSvcInfo option \<times> bool) \<times> ProcessFilter" where
  "GetProcInfo pid p =
     (case (if length (Pid2ProcInfo p) > 0 then map_of (Pid2ProcInfo p) pid else None) of
        Some (Some v) \<Rightarrow> ((Some v, True), p)
      | _ \<Rightarrow>
          if lru_Len (PidDeleted p) > 0 then
            (case lru_Get pid (PidDeleted p) of
               (Some (Some v), c) \<Rightarrow> ((Some v, True), p\<lparr>PidDeleted := c\<rparr>)
             | (_, c) \<Rightarrow> ((None, False), p\<lparr>PidDeleted := c\<rparr>))
          else ((None, False), p))"

subsection \<open>Sequences of operations\<close>

datatype filter_op =
  OpFilter int string string "(string \<times> string) list"
| OpDelete int
| OpGetProcInfo int

fun step :: "ProcessFilter \<Rightarrow> filter_op \<Rightarrow> ProcessFilter" where
  "step p (OpFilter pid name path env) = snd (Filter pid name path env p)"
| "step p (OpDelete pid) = Delete pid p"
| "step p (OpGetProcInfo pid) = snd (GetProcInfo pid p)"

definition run :: "ProcessFilter \<Rightarrow> filter_op list \<Rightarrow> ProcessFilter" where
  "run p ops = foldl step p ops"

definition isLive :: "ProcessFilter \<Rightarrow> int \<Rightarrow> bool" where
  "isLive p pid \<longleftrightarrow> pid \<in> set (map fst (Pid2ProcInfo p))"

definition isDeleted :: "ProcessFilter \<Rightarrow> int \<Rightarrow> bool" where
  "isDeleted p pid \<longleftrightarrow> pid \<in> set (map fst (ll (PidDeleted p)))"

text \<open>A sequence of operations in which \<open>Filter\<close> is never run on the given PID while
  that PID is in the deleted-PID cache.\<close>

fun noRefilterOf :: "int \<Rightarrow> ProcessFilter \<Rightarrow> filter_op list \<Rightarrow> bool" where
  "noRefilterOf pid p [] = True"
| "noRefilterOf pid p (OpFilter pid' name path env # ops) =
     (\<not> (pid' = pid \<and> isDeleted p pid)
      \<and> noRefilterOf pid (step p (OpFilter pid' name path env)) ops)"
| "noRefilterOf pid p (op # ops) = noRefilterOf pid (step p op) ops"

section \<open>ID generator of the l4log package\<close>

text \<open>
  The package-level variable \<open>_ulid\<close>: \<open>None\<close> is \<open>nil\<close>, \<open>Some u\<close> a generator in state
  \<open>u\<close>. The package \<open>spanid\<close> is not among the sources: the method \<open>ULID.ID\<close> and the
  outcome of \<open>spanid.NewULID\<close> are parameters.
\<close>

record 'u l4log =
  ulid :: "'u option"

definition genID128 ::
  "('u \<Rightarrow> (ID128 option \<times> bool) \<times> 'u) \<Rightarrow> 'u l4log \<Rightarrow> (ID128 option \<times> bool) \<times> 'u l4log" where
  "genID128 ID st =
     (case ulid st of
        Some u \<Rightarrow> (case ID u of (r, u') \<Rightarrow> (r, st\<lparr>ulid := Some u'\<rparr>))
      | None \<Rightarrow> ((None, False), st))"

text \<open>\<open>initULID\<close> stores whatever \<open>NewULID\<close> returned; the error is only logged.\<close>

definition initULID :: "'u option \<times> 'e option \<Rightarrow> 'u l4log \<Rightarrow> 'u l4log" where
  "initULID newULID st = (case newULID of (u, err) \<Rightarrow> st\<lparr>ulid := u\<rparr>)"

text \<open>The results of \<open>n\<close> successive calls of \<open>genID128\<close>, and the state after them.\<close>

fun genID128_calls ::
  "('u \<Rightarrow> (ID128 option \<times> bool) \<times> 'u) \<Rightarrow> nat \<Rightarrow> 'u l4log \<Rightarrow> (ID128 option \<times> bool) list \<times> 'u l4log" where
  "genID128_calls ID 0 st = ([], st)"
| "genID128_calls ID (Suc n) st =
     (case genID128 ID st of
        (r, st') \<Rightarrow> (case genID128_calls ID n st' of (rs, st'') \<Rightarrow> (r # rs, st'')))"

section \<open>Buffer pool of the l7flow package\<close>

text \<open>A Go slice: the backing array from the slice's start to its capacity, and the length.\<close>

record 'a slice =
  backing :: "'a list"
  len :: nat

definition cap :: "'a slice \<Rightarrow> nat" where
  "cap s = length (backing s)"

text \<open>
  Modelled from the spec: the declaration of \<open>comm.NetwrkData\<close> is not among the sources.
  The record has the fields \<open>putNetwrkData\<close> assigns; the integer fields, whose widths
  are unknown, are integers, \<open>Conn\<close> and \<open>ConnUniID\<close> are of types with a zero value, the
  array \<open>Thread\<close> of two elements is a pair, and any further field is in the record's
  extension.
\<close>

record ('c, 'i) NetwrkData =
  Conn :: 'c
  ConnUniID :: 'i
  ActSize :: int
  TCPSeq :: int
  Thread :: "int \<times> int"
  TS :: int
  Fn :: int
  TSTail :: int
  Index :: int
  Payload :: "byte slice"

text \<open>
  The heap of buffers (a pointer is an address, \<open>None\<close> is \<open>nil\<close>) and the pool. A
  pointer that is not \<open>nil\<close> refers to a buffer of the heap; for an address outside the
  heap, which Go cannot produce, \<open>putNetwrkData\<close> leaves the state as it is.
\<close>

record ('c, 'i, 'x) l7flow =
  heap :: "nat \<rightharpoonup> ('c, 'i, 'x) NetwrkData_scheme"
  netwrksyncPool :: "nat list"

definition putNetwrkData ::
  "nat option \<Rightarrow> ('c::zero, 'i::zero, 'x) l7flow \<Rightarrow> ('c, 'i, 'x) l7flow" where
  "putNetwrkData data st =
     (case data of
        None \<Rightarrow> st
      | Some a \<Rightarrow>
          (case heap st a of
             None \<Rightarrow> st
           | Some d \<Rightarrow>
               (let d = d\<lparr>Conn := 0\<rparr>;
                    d = d\<lparr>ConnUniID := 0\<rparr>;
                    d = d\<lparr>ActSize := 0\<rparr>;
                    d = d\<lparr>TCPSeq := 0\<rparr>;
                    d = d\<lparr>Thread := (0, snd (Thread d))\<rparr>;
                    d = d\<lparr>Thread := (fst (Thread d), 0)\<rparr>;
                    d = d\<lparr>TS := 0\<rparr>;
                    d = d\<lparr>Fn := 0\<rparr>;
                    d = d\<lparr>TSTail := 0\<rparr>;
                    d = d\<lparr>Index := 0\<rparr>;
                    d = d\<lparr>Payload := (Payload d)\<lparr>len := 0\<rparr>\<rparr>
                in st\<lparr>heap := (heap st)(a \<mapsto> d),
                      netwrksyncPool := a # netwrksyncPool st\<rparr>)))"


section \<open>Properties of the ID codec\<close>

subsection \<open>Hex encoding and decoding\<close>

lemma hextable_decodes:
  "list_all (\<lambda>n. fromHexChar (''0123456789abcdef'' ! n) = Some (of_nat n)) [0..<16]"
  by code_simp

lemma nibble_cases: "n < 16 \<Longrightarrow> fromHexChar (''0123456789abcdef'' ! n) = Some (of_nat n)"
  using hextable_decodes unfolding list_all_iff
  by (metis atLeastLessThan_iff set_upt zero_le)

lemma unat_and15: "unat ((v::byte) AND 0x0f) < 16"
proof -
  have "unat (v AND 15) \<le> unat (15 :: byte)"
    by (rule word_and_le1 [THEN word_le_nat_alt [THEN iffD1]])
  then show ?thesis by simp
qed

lemma fromHexChar_hextable: "fromHexChar (hextable v) = Some (v AND 0x0f)"
  unfolding hextable_def using nibble_cases [OF unat_and15, of v] by simp

lemma mask4: "(15::byte) = mask 4"
  by (simp add: mask_eq_exp_minus_1)

lemma byte_nibbles: "push_bit 4 (drop_bit 4 (v::byte) AND 0x0f) OR ((v AND 0x0f) AND 0x0f) = v"
proof (rule bit_word_eqI)
  fix n assume "n < LENGTH(8)"
  then show "bit (push_bit 4 (drop_bit 4 v AND 0x0f) OR ((v AND 0x0f) AND 0x0f)) n = bit v n"
    unfolding mask4 by (auto simp: bit_simps)
qed

lemma hex_roundtrip: "hex_DecodeString (hex_EncodeToString bs) = (bs, None)"
proof (induction bs)
  case Nil
  show ?case by simp
next
  case (Cons a bs)
  have "hex_DecodeString (hex_EncodeToString (a # bs))
      = ((push_bit 4 (drop_bit 4 a AND 0x0f) OR ((a AND 0x0f) AND 0x0f)) # bs, None)"
    by (simp only: hex_EncodeToString.simps hex_DecodeString.simps fromHexChar_hextable
          option.case Cons.IH prod.case)
  then show ?case by (simp only: byte_nibbles)
qed

lemma byte_at: "bit (push_bit k (ucast (ucast (drop_bit k (v::uint64)) :: byte)) :: uint64) n
   \<longleftrightarrow> (k \<le> n \<and> n < k + 8 \<and> n < 64 \<and> bit v n)"
  by (auto simp: bit_simps)

lemma byte_at0: "bit (ucast (ucast (v::uint64) :: byte) :: uint64) n \<longleftrightarrow> (n < 8 \<and> bit v n)"
  by (auto simp: bit_simps)

lemma Uint64_PutUint64: "BigEndian_Uint64 (BigEndian_PutUint64 v) = Inr v"
proof -
  have "(ucast (ucast v :: byte) OR push_bit 8 (ucast (ucast (drop_bit 8 v) :: byte))
     OR push_bit 16 (ucast (ucast (drop_bit 16 v) :: byte))
     OR push_bit 24 (ucast (ucast (drop_bit 24 v) :: byte))
     OR push_bit 32 (ucast (ucast (drop_bit 32 v) :: byte))
     OR push_bit 40 (ucast (ucast (drop_bit 40 v) :: byte))
     OR push_bit 48 (ucast (ucast (drop_bit 48 v) :: byte))
     OR push_bit 56 (ucast (ucast (drop_bit 56 v) :: byte))) = (v :: uint64)"
    apply (rule bit_word_eqI)
    apply (simp only: bit_or_iff byte_at byte_at0)
    apply (simp only: len_of_numeral_defs)
    apply simp
    apply arith
    done
  then show ?thesis
    by (simp only: BigEndian_PutUint64_def BigEndian_Uint64.simps)
qed

lemma length_PutUint64: "length (BigEndian_PutUint64 v) = 8"
  by (simp add: BigEndian_PutUint64_def)

lemma hex_roundtrip64: "HexSpanid2ID64 (FormatSpanID x True) = Inr x"
  by (simp add: HexSpanid2ID64_def FormatSpanID_def hex_roundtrip length_PutUint64
        Uint64_PutUint64)

subsection \<open>Decimal parsing and formatting\<close>

lemma decFrom_simps [simp]:
  "decFrom n [] = n" "decFrom n (c # cs) = decFrom (n * 10 + digitVal c) cs"
  by (simp_all add: decFrom_def)

lemma decFrom_append: "decFrom n (xs @ ys) = decFrom (decFrom n xs) ys"
  by (simp add: decFrom_def)

lemma decFrom_ge: "n \<le> decFrom n cs"
proof (induction cs arbitrary: n)
  case Nil show ?case by simp
next
  case (Cons c cs)
  have "n \<le> n * 10 + digitVal c" by simp
  also have "\<dots> \<le> decFrom (n * 10 + digitVal c) cs" by (rule Cons.IH)
  finally show ?case by simp
qed

lemma decFrom_mono: "m \<le> n \<Longrightarrow> decFrom m cs \<le> decFrom n cs"
  by (induction cs arbitrary: m n) simp_all

lemma digitVal_le: "isDigit c \<Longrightarrow> digitVal c \<le> 9"
  by (auto simp: isDigit_def digitVal_def)

lemma unat_of_nat64: "n < 2 ^ 64 \<Longrightarrow> unat (of_nat n :: uint64) = n"
  by (simp add: unat_of_nat)

lemma unat_cutoff10: "unat cutoff10 = 1844674407370955162"
  by (simp add: cutoff10_def unat_div unat_word_ariths)

lemma parseUint_step:
  assumes n: "n < 2 ^ 64" and c: "isDigit c"
  shows "parseUint_loop (of_nat n) (c # cs) =
          (if n * 10 + digitVal c < 2 ^ 64 then parseUint_loop (of_nat (n * 10 + digitVal c)) cs
           else (maxVal64, Some ErrRange))"
proof -
  let ?d = "digitVal c"
  have d: "?d \<le> 9" using c by (rule digitVal_le)
  have un: "unat (of_nat n :: uint64) = n" using n by (rule unat_of_nat64)
  show ?thesis
  proof (cases "cutoff10 \<le> (of_nat n :: uint64)")
    case True
    then have "1844674407370955162 \<le> n" by (simp add: word_le_nat_alt un unat_cutoff10)
    then have "\<not> n * 10 + ?d < 2 ^ 64" by simp
    with True c show ?thesis by simp
  next
    case False
    then have lt: "n < 1844674407370955162" by (simp add: word_le_nat_alt un unat_cutoff10)
    then have n10: "n * 10 < 2 ^ 64" by simp
    have "(of_nat n * 10 :: uint64) = of_nat (n * 10)" by simp
    then have u10: "unat (of_nat n * 10 :: uint64) = n * 10"
      using n10 by (simp only: unat_of_nat64)
    have eq: "(of_nat n * 10 + of_nat ?d :: uint64) = of_nat (n * 10 + ?d)" by simp
    have u1: "unat (of_nat n * 10 + of_nat ?d :: uint64) = (n * 10 + ?d) mod 2 ^ 64"
      by (simp only: eq unat_of_nat) simp
    show ?thesis
    proof (cases "n * 10 + ?d < 2 ^ 64")
      case True
      then have "\<not> (of_nat n * 10 + of_nat ?d :: uint64) < of_nat n * 10"
        by (simp add: word_less_nat_alt u1 u10)
      with False c True eq show ?thesis by (simp add: Let_def)
    next
      case ov: False
      then have "(n * 10 + ?d) mod 2 ^ 64 = n * 10 + ?d - 2 ^ 64"
        using n10 d by (simp add: mod_if)
      then have "(of_nat n * 10 + of_nat ?d :: uint64) < of_nat n * 10"
        using d ov by (simp add: word_less_nat_alt u1 u10)
      with False c ov show ?thesis by (simp add: Let_def)
    qed
  qed
qed


lemma parseUint_loop_char:
  "n < 2 ^ 64 \<Longrightarrow>
   parseUint_loop (of_nat n) s =
     (if 2 ^ 64 \<le> decFrom n (takeWhile isDigit s) then (maxVal64, Some ErrRange)
      else if list_all isDigit s then (of_nat (decFrom n s), None)
      else (0, Some ErrSyntax))"
proof (induction s arbitrary: n)
  case Nil
  then show ?case by simp
next
  case (Cons c cs)
  show ?case
  proof (cases "isDigit c")
    case False
    with Cons.prems show ?thesis by simp
  next
    case True
    let ?n' = "n * 10 + digitVal c"
    show ?thesis
    proof (cases "?n' < 2 ^ 64")
      case small: True
      show ?thesis
        using True small Cons.IH [OF small] parseUint_step [OF Cons.prems True, of cs]
        by simp
    next
      case big: False
      have "?n' \<le> decFrom ?n' (takeWhile isDigit cs)" by (rule decFrom_ge)
      with big have "2 ^ 64 \<le> decFrom ?n' (takeWhile isDigit cs)" by simp
      then show ?thesis
        using True big parseUint_step [OF Cons.prems True, of cs] by simp
    qed
  qed
qed

lemma ParseUint10_char:
  "ParseUint10 s =
     (if 2 ^ 64 \<le> decFrom 0 (takeWhile isDigit s) then (maxVal64, Some ErrRange)
      else if decimal s then (of_nat (decFrom 0 s), None)
      else (0, Some ErrSyntax))"
  using parseUint_loop_char [of 0 s] by (auto simp: ParseUint10_def decimal_def)

lemma of_char_digitChar: "d < 10 \<Longrightarrow> (of_char (digitChar d) :: nat) = 48 + d"
  by (simp add: digitChar_def)

lemma isDigit_digitChar: "d < 10 \<Longrightarrow> isDigit (digitChar d)"
  by (simp add: isDigit_def of_char_digitChar)

lemma digitVal_digitChar: "d < 10 \<Longrightarrow> digitVal (digitChar d) = d"
  by (simp add: digitVal_def of_char_digitChar)

lemma formatBits10_digits: "list_all isDigit (formatBits10 u) \<and> formatBits10 u \<noteq> []"
proof (induction u rule: formatBits10.induct)
  case (1 u)
  show ?case
  proof (cases "u < 10")
    case True
    then show ?thesis by (simp add: formatBits10.simps [of u] isDigit_digitChar)
  next
    case False
    with "1" show ?thesis by (simp add: formatBits10.simps [of u] isDigit_digitChar)
  qed
qed

lemma decFrom_formatBits10: "decFrom 0 (formatBits10 u) = u"
proof (induction u rule: formatBits10.induct)
  case (1 u)
  show ?case
  proof (cases "u < 10")
    case True
    then show ?thesis by (simp add: formatBits10.simps [of u] digitVal_digitChar)
  next
    case False
    with "1" show ?thesis
      by (simp add: formatBits10.simps [of u] decFrom_append digitVal_digitChar)
  qed
qed

lemma takeWhile_all: "list_all P xs \<Longrightarrow> takeWhile P xs = xs"
  by (induction xs) simp_all

lemma isDigit_not_minus: "isDigit c \<Longrightarrow> c \<noteq> CHR ''-''"
  by (auto simp: isDigit_def)

lemma decimal_takeWhile: "decimal s \<Longrightarrow> takeWhile isDigit s = s"
  by (simp add: decimal_def list_all_iff)

lemma dec_roundtrip: "DecTraceOrSpanid2ID64 (FormatSpanID x False) = x"
proof -
  let ?s = "formatBits10 (unat x)"
  have dec: "decimal ?s"
    using formatBits10_digits [of "unat x"] by (simp add: decimal_def)
  then have dig: "list_all isDigit ?s" and ne: "?s \<noteq> []" by (simp_all add: decimal_def)
  have "isDigit (hd ?s)" using dig ne by (cases ?s) simp_all
  then have nominus: "\<not> prefix ''-'' ?s"
    using ne isDigit_not_minus by (cases ?s) auto
  have small: "\<not> 2 ^ 64 \<le> decFrom 0 (takeWhile isDigit ?s)"
    using unsigned_less [of x, where ?'a = nat]
    by (simp add: decimal_takeWhile [OF dec] decFrom_formatBits10)
  have "ParseUint10 ?s = (of_nat (unat x), None)"
    unfolding ParseUint10_char using small dec by (simp add: decFrom_formatBits10)
  then show ?thesis
    using nominus by (simp add: DecTraceOrSpanid2ID64_def FormatSpanID_def FormatUint10_def)
qed

lemma ParseInt10_minus:
  "ParseInt10 (CHR ''-'' # r) =
     (if 2 ^ 64 \<le> decFrom 0 (takeWhile isDigit r) then (push_bit 63 1, Some ErrRange)
      else if decimal r then
        (if 2 ^ 63 < decFrom 0 r then (push_bit 63 1, Some ErrRange)
         else (- of_nat (decFrom 0 r), None))
      else (0, Some ErrSyntax))"
proof -
  have neg63: "- (push_bit 63 1 :: uint64) = push_bit 63 1" by simp
  have lt: "\<And>m. m < 2 ^ 64 \<Longrightarrow> ((push_bit 63 1 :: uint64) < of_nat m) = (2 ^ 63 < m)"
    by (simp add: word_less_nat_alt unat_of_nat64)
  have mx: "(push_bit 63 1 :: uint64) < maxVal64"
    by (simp add: maxVal64_def word_less_nat_alt)
  have P: "ParseInt10 (CHR ''-'' # r) =
     (case ParseUint10 r of (un, err) \<Rightarrow>
        if err = Some ErrSyntax then (0, err)
        else if push_bit 63 1 < un then (- push_bit 63 1, Some ErrRange)
        else (- un, None))"
    by (simp add: ParseInt10_def Let_def split: prod.splits)
  show ?thesis
  proof (cases "2 ^ 64 \<le> decFrom 0 (takeWhile isDigit r)")
    case True
    then show ?thesis unfolding P ParseUint10_char using mx by (simp add: neg63)
  next
    case False
    show ?thesis
    proof (cases "decimal r")
      case ok: True
      with False have m: "decFrom 0 r < 2 ^ 64" by (simp add: decimal_takeWhile)
      show ?thesis unfolding P ParseUint10_char using False ok lt [OF m] 
        by (simp add: neg63)
    next
      case bad: False
      show ?thesis unfolding P ParseUint10_char using False bad by simp
    qed
  qed
qed

lemma sint_neg_of_nat: "m \<le> 2 ^ 63 \<Longrightarrow> sint (- of_nat m :: uint64) = - int m"
proof -
  assume m: "m \<le> 2 ^ 63"
  have "sint (word_of_int (- int m) :: uint64) = signed_take_bit 63 (- int m)"
    unfolding signed_of_int by simp
  moreover have "signed_take_bit 63 (- int m) = - int m"
    using m by (intro signed_take_bit_int_eq_self) simp_all
  ultimately show ?thesis by simp
qed


subsection \<open>Zero results of the hex decoders\<close>





















subsection \<open>The claims about the codec\<close>

text \<open>
  C7. Both encodings of a span ID round-trip: for every 64-bit value \<open>x\<close>, decoding the
  16-digit hex form gives \<open>x\<close> (and never panics), and decoding the decimal form gives \<open>x\<close>.
\<close>

theorem FormatSpanID_roundtrip:
  "HexSpanid2ID64 (FormatSpanID x True) = Inr x \<and>
   DecTraceOrSpanid2ID64 (FormatSpanID x False) = x"
  by (simp add: hex_roundtrip64 dec_roundtrip)

text \<open>
  C4, as the code has it. With a leading \<open>-\<close> and a decimal magnitude up to \<open>2^63\<close> the
  result is the two's complement bit pattern of the negative value; without a leading
  \<open>-\<close> a decimal below \<open>2^64\<close> gives its value; a string that is not a decimal gives \<open>0\<close>
  provided its leading digits do not already overflow; an out-of-range value does not
  give \<open>0\<close> but saturates, at \<open>0x8000000000000000\<close> behind a \<open>-\<close> and at
  \<open>0xFFFFFFFFFFFFFFFF\<close> otherwise.
\<close>

theorem DecTraceOrSpanid2ID64_cases:
  "(decimal r \<and> decFrom 0 r \<le> 2 ^ 63 \<longrightarrow>
      DecTraceOrSpanid2ID64 (CHR ''-'' # r) = - of_nat (decFrom 0 r) \<and>
      sint (DecTraceOrSpanid2ID64 (CHR ''-'' # r)) = - int (decFrom 0 r))
   \<and> (\<not> prefix ''-'' s \<and> decimal s \<and> decFrom 0 s < 2 ^ 64 \<longrightarrow>
      unat (DecTraceOrSpanid2ID64 s) = decFrom 0 s)
   \<and> (\<not> decimal r \<and> decFrom 0 (takeWhile isDigit r) < 2 ^ 64 \<longrightarrow>
      DecTraceOrSpanid2ID64 (CHR ''-'' # r) = 0)
   \<and> (\<not> prefix ''-'' s \<and> \<not> decimal s \<and> decFrom 0 (takeWhile isDigit s) < 2 ^ 64 \<longrightarrow>
      DecTraceOrSpanid2ID64 s = 0)
   \<and> (2 ^ 64 \<le> decFrom 0 (takeWhile isDigit r) \<or> decimal r \<and> 2 ^ 63 < decFrom 0 r \<longrightarrow>
      DecTraceOrSpanid2ID64 (CHR ''-'' # r) = 0x8000000000000000)
   \<and> (\<not> prefix ''-'' s \<and> 2 ^ 64 \<le> decFrom 0 (takeWhile isDigit s) \<longrightarrow>
      DecTraceOrSpanid2ID64 s = 0xFFFFFFFFFFFFFFFF)"
proof -
  have top: "(push_bit 63 1 :: uint64) = 0x8000000000000000" by simp
  have D: "DecTraceOrSpanid2ID64 (CHR ''-'' # r) = fst (ParseInt10 (CHR ''-'' # r))"
    by (simp add: DecTraceOrSpanid2ID64_def)
  have c1: "DecTraceOrSpanid2ID64 (CHR ''-'' # r) = - of_nat (decFrom 0 r) \<and>
      sint (DecTraceOrSpanid2ID64 (CHR ''-'' # r)) = - int (decFrom 0 r)"
    if dec: "decimal r" and m: "decFrom 0 r \<le> 2 ^ 63"
  proof -
    have "DecTraceOrSpanid2ID64 (CHR ''-'' # r) = - of_nat (decFrom 0 r)"
      unfolding D ParseInt10_minus decimal_takeWhile [OF dec] using m dec by simp
    then show ?thesis using sint_neg_of_nat [OF m] by simp
  qed
  have c2: "unat (DecTraceOrSpanid2ID64 s) = decFrom 0 s"
    if "\<not> prefix ''-'' s" and dec: "decimal s" and m: "decFrom 0 s < 2 ^ 64"
  proof -
    have "DecTraceOrSpanid2ID64 s = of_nat (decFrom 0 s)"
      using that(1) m dec
      unfolding DecTraceOrSpanid2ID64_def ParseUint10_char decimal_takeWhile [OF dec] by simp
    then show ?thesis using unat_of_nat64 [OF m] by simp
  qed
  have c3: "DecTraceOrSpanid2ID64 (CHR ''-'' # r) = 0"
    if "\<not> decimal r" and m: "decFrom 0 (takeWhile isDigit r) < 2 ^ 64"
    using that unfolding D ParseInt10_minus by simp
  have c4: "DecTraceOrSpanid2ID64 s = 0"
    if "\<not> prefix ''-'' s" and "\<not> decimal s" and "decFrom 0 (takeWhile isDigit s) < 2 ^ 64"
    using that unfolding DecTraceOrSpanid2ID64_def ParseUint10_char by simp
  have c5: "DecTraceOrSpanid2ID64 (CHR ''-'' # r) = 0x8000000000000000"
    if "2 ^ 64 \<le> decFrom 0 (takeWhile isDigit r) \<or> decimal r \<and> 2 ^ 63 < decFrom 0 r"
    using that unfolding D ParseInt10_minus top by auto
  have c6: "DecTraceOrSpanid2ID64 s = 0xFFFFFFFFFFFFFFFF"
    if "\<not> prefix ''-'' s" and "2 ^ 64 \<le> decFrom 0 (takeWhile isDigit s)"
    using that unfolding DecTraceOrSpanid2ID64_def ParseUint10_char maxVal64_def by simp
  from c1 c2 c3 c4 c5 c6 show ?thesis by blast
qed

theorem DecTraceOrSpanid2ID64_cases_witness:
  "DecTraceOrSpanid2ID64 ''-1'' = 0xFFFFFFFFFFFFFFFF \<and>
   sint (DecTraceOrSpanid2ID64 ''-1'') = - 1 \<and>
   unat (DecTraceOrSpanid2ID64 ''42'') = 42 \<and>
   DecTraceOrSpanid2ID64 ''-x'' = 0 \<and>
   DecTraceOrSpanid2ID64 ''4x'' = 0 \<and>
   DecTraceOrSpanid2ID64 ''-9223372036854775809'' = 0x8000000000000000 \<and>
   DecTraceOrSpanid2ID64 ''18446744073709551617'' = 0xFFFFFFFFFFFFFFFF"
  using DecTraceOrSpanid2ID64_cases [where r = "''1''" and s = "''42''"]
    DecTraceOrSpanid2ID64_cases [where r = "''x''" and s = "''4x''"]
    DecTraceOrSpanid2ID64_cases [where r = "''9223372036854775809''"
      and s = "''18446744073709551617''"]
  by (simp add: decimal_def isDigit_def digitVal_def)

text \<open>
  The claim C4 as stated fails on an out-of-range value: \<open>2^64\<close> in decimal does not
  give \<open>0\<close>.
\<close>

theorem DecTraceOrSpanid2ID64_out_of_range:
  "DecTraceOrSpanid2ID64 ''18446744073709551616'' = 0xFFFFFFFFFFFFFFFF \<and>
   DecTraceOrSpanid2ID64 ''18446744073709551616'' \<noteq> 0"
  by (simp add: DecTraceOrSpanid2ID64_def ParseUint10_def isDigit_def digitVal_def
        cutoff10_def maxVal64_def Let_def)





section \<open>Properties of the header parser and the trace-context extractor\<close>

lemmas parser_eval = GetHTTPHeader_def Let_def CRLF_def strings_Split.simps strings_SplitN2_def
  uriAccepted_def strings_TrimSpace_def spaceRunes_def

lemmas dec_eval = DecTraceOrSpanid2ID64_def ParseUint10_def ParseInt10_def isDigit_def
  digitVal_def cutoff10_def maxVal64_def Let_def word_le_nat_alt word_less_nat_alt

lemma strings_Split_nonempty: "strings_Split s sep \<noteq> []"
  by (subst strings_Split.simps) (simp add: Let_def)

text \<open>On a buffer that is not empty the parser returns \<open>nil\<close> or a map.\<close>

lemma GetHTTPHeader_nonempty_total: "payload \<noteq> [] \<Longrightarrow> \<exists>r. GetHTTPHeader payload = Inr r"
  using strings_Split_nonempty
  by (auto simp: GetHTTPHeader_def Let_def split: list.splits)

text \<open>The scenario of a request cut before the empty line: both headers are found,
  their values trimmed.\<close>

lemma GetHTTPHeader_truncated_request:
  "GetHTTPHeader (''GET /api/v1/users?x=1 HTTP/1.1'' @ CRLF @ ''Host: example.com'' @ CRLF
      @ ''X-Req-Id: abc'' @ CRLF)
   = Inr (Some [''Host'' \<mapsto> ''example.com'', ''X-Req-Id'' \<mapsto> ''abc''])"
  by (simp add: parser_eval)

text \<open>The W3C scenario of the specification.\<close>

lemma GetTraceInfo_W3C_example:
  "GetTraceInfo [''traceparent'' \<mapsto> ''00-4bf92f3577b34da6a3ce929d0e0e4736-00f067aa0ba902b7-01'']
   = Inr (True, True, \<lparr>High = 0x4bf92f3577b34da6, Low = 0xa3ce929d0e0e4736\<rparr>,
          0x00f067aa0ba902b7)"
  by (simp add: GetTraceInfo_def strings_Split.simps Let_def HexTraceid2ID128_def
        HexSpanid2ID64_def fromHexChar_def SampledW3C_def)

text \<open>Positions of a separator behind a prefix that does not hold its first byte.\<close>

lemma Index_skip:
  "c \<notin> set a \<Longrightarrow> strings_Index (a @ c # cs @ b) (c # cs) = int (length a)"
  by (induction a) (auto simp: Let_def)

lemma Index_none: "c \<notin> set a \<Longrightarrow> strings_Index a (c # cs) = - 1"
  by (induction a) (auto simp: Let_def)

lemma LastIndex_skip:
  "c \<notin> set a \<Longrightarrow>
     bytes_LastIndex (a @ b) (c # cs) =
       (if 0 \<le> bytes_LastIndex b (c # cs) then bytes_LastIndex b (c # cs) + int (length a)
        else - 1)"
proof (induction a)
  case Nil
  have "bytes_LastIndex b (c # cs) < 0 \<Longrightarrow> bytes_LastIndex b (c # cs) = - 1"
    by (induction b) (auto simp: Let_def split: if_splits)
  then show ?case by auto
next
  case (Cons x a)
  then show ?case by (auto simp: Let_def)
qed

lemma Split_CRLF_line:
  assumes "CHR 0x0D \<notin> set l"
  shows "strings_Split (l @ [CHR 0x0D, CHR 0x0A]) CRLF = [l, []]"
proof -
  have i: "strings_Index (l @ [CHR 0x0D, CHR 0x0A]) CRLF = int (length l)"
    using Index_skip [OF assms, of "[CHR 0x0A]" "[]"] by (simp add: CRLF_def)
  have e: "strings_Split [] CRLF = [[]]"
    by (subst strings_Split.simps) (simp add: CRLF_def)
  have c1: "CRLF \<noteq> []" and c2: "length CRLF = 2" by (simp_all add: CRLF_def)
  show ?thesis
    by (subst strings_Split.simps) (simp add: i e c1 c2 Let_def)
qed

lemma SplitN2_colon:
  assumes "CHR '':'' \<notin> set name"
  shows "strings_SplitN2 (name @ CHR '':'' # val) '':'' = [name, val]"
  using Index_skip [OF assms, of "[]" val] by (simp add: strings_SplitN2_def Let_def)

lemma GetHTTPHeader_accepts:
  assumes ne: "payload \<noteq> []" and b0: "hd payload \<noteq> CHR ''0''"
    and last: "bytes_LastIndex payload (CRLF @ CRLF) = - 1"
    and idx: "strings_Index payload CRLF = int i"
    and req: "strings_Split (take i payload) '' '' = [method, target, version]"
    and tgt: "strings_Split target ''?'' = uri # params"
    and acc: "uriAccepted uri"
  shows "GetHTTPHeader payload
           = Inr (Some (headerLoop (strings_Split (drop (i + 2) payload) CRLF) Map.empty))"
proof -
  obtain c cs where p: "payload = c # cs" using ne by (cases payload) auto
  have c: "\<And>f g. (case payload of [] \<Rightarrow> f | b # x \<Rightarrow> g b x) = g (hd payload) (tl payload)"
    by (simp add: p)
  show ?thesis
    unfolding GetHTTPHeader_def c last Let_def
    using b0 req tgt acc by (simp add: idx)
qed

lemma LastIndex_no_blank_line:
  assumes rl: "CHR 0x0D \<notin> set rl" and l: "CHR 0x0D \<notin> set l" and ne: "l \<noteq> []"
  shows "bytes_LastIndex (rl @ CHR 0x0D # CHR 0x0A # l @ [CHR 0x0D, CHR 0x0A]) (CRLF @ CRLF) = - 1"
proof -
  let ?sep = "CHR 0x0D # [CHR 0x0A, CHR 0x0D, CHR 0x0A]"
  have s4: "CRLF @ CRLF = ?sep" by (simp add: CRLF_def)
  have e: "bytes_LastIndex [CHR 0x0D, CHR 0x0A] ?sep = - 1" by simp
  have "CHR 0x0D \<notin> set (CHR 0x0A # l)" using l by simp
  from LastIndex_skip [OF this, of "[CHR 0x0D, CHR 0x0A]" "[CHR 0x0A, CHR 0x0D, CHR 0x0A]"]
  have a: "bytes_LastIndex ((CHR 0x0A # l) @ [CHR 0x0D, CHR 0x0A]) ?sep = - 1"
    by (simp only: e) simp
  obtain x xs where lx: "l = x # xs" using ne by (cases l) auto
  with l have "x \<noteq> CHR 0x0D" by auto
  then have nopre: "\<not> prefix ?sep (CHR 0x0D # (CHR 0x0A # l) @ [CHR 0x0D, CHR 0x0A])"
    by (simp add: lx)
  have b: "bytes_LastIndex (CHR 0x0D # (CHR 0x0A # l) @ [CHR 0x0D, CHR 0x0A]) ?sep = - 1"
    by (simp only: bytes_LastIndex.simps(2) a Let_def nopre) simp
  from LastIndex_skip [OF rl, of "CHR 0x0D # (CHR 0x0A # l) @ [CHR 0x0D, CHR 0x0A]"
      "[CHR 0x0A, CHR 0x0D, CHR 0x0A]"]
  have "bytes_LastIndex (rl @ CHR 0x0D # (CHR 0x0A # l) @ [CHR 0x0D, CHR 0x0A]) ?sep = - 1"
    by (simp only: b) simp
  then show ?thesis by (simp only: s4 append_Cons)
qed

text \<open>A request of an accepted first line and one header line: the map holds the
  header's name as received and its trimmed value.\<close>

lemma GetHTTPHeader_one_header:
  assumes rl: "CHR 0x0D \<notin> set rl" and rne: "rl \<noteq> []" and r0: "hd rl \<noteq> CHR ''0''"
    and req: "strings_Split rl '' '' = [method, target, version]"
    and tgt: "strings_Split target ''?'' = uri # params"
    and acc: "uriAccepted uri"
    and n1: "CHR 0x0D \<notin> set name" and n2: "CHR '':'' \<notin> set name"
    and v: "CHR 0x0D \<notin> set val"
  shows "GetHTTPHeader (rl @ CRLF @ name @ '':'' @ val @ CRLF)
           = Inr (Some [name \<mapsto> strings_TrimSpace val])"
proof -
  let ?line = "name @ CHR '':'' # val"
  let ?rest = "?line @ [CHR 0x0D, CHR 0x0A]"
  let ?payload = "rl @ CHR 0x0D # CHR 0x0A # ?rest"
  have cr: "CHR 0x0D \<notin> set ?line" using n1 v by simp
  have lne: "?line \<noteq> []" by simp
  have last: "bytes_LastIndex ?payload (CRLF @ CRLF) = - 1"
    using rl cr lne by (rule LastIndex_no_blank_line)
  have idx: "strings_Index ?payload CRLF = int (length rl)"
    using Index_skip [OF rl, of "[CHR 0x0A]" ?rest] by (simp add: CRLF_def)
  have lines: "strings_Split ?rest CRLF = [?line, []]"
    using cr by (rule Split_CRLF_line)
  have loop: "headerLoop [?line, []] Map.empty = [name \<mapsto> strings_TrimSpace val]"
    using SplitN2_colon [OF n2, of val]
    by (simp add: strings_SplitN2_def [of "[]"] Let_def)
  have tk: "take (length rl) ?payload = rl" by simp
  have dr: "drop (length rl + 2) ?payload = ?rest" by simp
  have "GetHTTPHeader ?payload
      = Inr (Some (headerLoop (strings_Split (drop (length rl + 2) ?payload) CRLF) Map.empty))"
  proof (rule GetHTTPHeader_accepts [OF _ _ last idx _ tgt acc])
    show "?payload \<noteq> []" using rne by simp
    show "hd ?payload \<noteq> CHR ''0''" using rne r0 by simp
    show "strings_Split (take (length rl) ?payload) '' '' = [method, target, version]"
      unfolding tk by (rule req)
  qed
  then have "GetHTTPHeader ?payload = Inr (Some [name \<mapsto> strings_TrimSpace val])"
    unfolding dr lines loop .
  moreover have "rl @ CRLF @ name @ '':'' @ val @ CRLF = ?payload" by (simp add: CRLF_def)
  ultimately show ?thesis by simp
qed

text \<open>
  C5. The claim says that \<open>GetHTTPHeader\<close> never faults, the empty buffer included. On
  the empty buffer the code reads \<open>payload[0]\<close> and panics.
\<close>

theorem GetHTTPHeader_empty_panics: "GetHTTPHeader [] = Inl IndexOutOfRange"
  by (simp add: GetHTTPHeader_def)

text \<open>
  C2, as the code has it. The header names are matched exactly, in lower case.
  \<open>GetHTTPHeader\<close> keeps a header's name byte for byte: a request of an accepted first
  line and one header line gives the map of that name to the trimmed value. On such a
  map \<open>GetTraceInfo\<close> gives the DataDog result when the name is exactly
  \<open>x-datadog-trace-id\<close>, the W3C result when it is exactly \<open>traceparent\<close>, and the
  all-zero result for every other name, any other letter casing of these names included.
  In general a header map without the keys \<open>x-datadog-trace-id\<close> and \<open>traceparent\<close>
  gives the all-zero result, and two header maps that agree on the four lower-case
  names give the same result.
\<close>

theorem GetTraceInfo_exact_names:
  "(acceptedRequestLine rl \<and> CHR 0x0D \<notin> set name \<and> CHR '':'' \<notin> set name \<and>
    CHR 0x0D \<notin> set val \<longrightarrow>
      GetHTTPHeader (rl @ CRLF @ name @ '':'' @ val @ CRLF)
        = Inr (Some [name \<mapsto> strings_TrimSpace val]))
   \<and> GetTraceInfo [''x-datadog-trace-id'' \<mapsto> v]
       = Inr (False, False, \<lparr>High = 0, Low = DecTraceOrSpanid2ID64 v\<rparr>, 0)
   \<and> GetTraceInfo [''traceparent'' \<mapsto> v]
       = (case strings_Split v ''-'' of
            [ver, tid, psid, flags] \<Rightarrow>
              (case HexTraceid2ID128 tid of
                 Inl e \<Rightarrow> Inl e
               | Inr traceID \<Rightarrow>
                   (case HexSpanid2ID64 psid of
                      Inl e \<Rightarrow> Inl e
                    | Inr parentID \<Rightarrow> Inr (SampledW3C flags, True, traceID, parentID)))
          | _ \<Rightarrow> Inr (False, False, zeroID128, 0))
   \<and> (k \<noteq> ''x-datadog-trace-id'' \<and> k \<noteq> ''traceparent'' \<longrightarrow>
        GetTraceInfo [k \<mapsto> v] = Inr (False, False, zeroID128, 0))
   \<and> (headers ''x-datadog-trace-id'' = None \<and> headers ''traceparent'' = None \<longrightarrow>
        GetTraceInfo headers = Inr (False, False, zeroID128, 0))
   \<and> (h1 ''x-datadog-trace-id'' = h2 ''x-datadog-trace-id'' \<and>
       h1 ''x-datadog-parent-id'' = h2 ''x-datadog-parent-id'' \<and>
       h1 ''x-datadog-sampling-priority'' = h2 ''x-datadog-sampling-priority'' \<and>
       h1 ''traceparent'' = h2 ''traceparent'' \<longrightarrow>
      GetTraceInfo h1 = GetTraceInfo h2)"
proof -
  have parse: "GetHTTPHeader (rl @ CRLF @ name @ '':'' @ val @ CRLF)
        = Inr (Some [name \<mapsto> strings_TrimSpace val])"
    if a: "acceptedRequestLine rl" and n1: "CHR 0x0D \<notin> set name"
      and n2: "CHR '':'' \<notin> set name" and vv: "CHR 0x0D \<notin> set val"
  proof -
    from a have rl: "CHR 0x0D \<notin> set rl" and rne: "rl \<noteq> []" and r0: "hd rl \<noteq> CHR ''0''"
      by (simp_all add: acceptedRequestLine_def)
    from a obtain m t ver where
      req: "strings_Split rl '' '' = [m, t, ver]"
      by (auto simp: acceptedRequestLine_def split: list.splits)
    with a obtain uri params where tgt: "strings_Split t ''?'' = uri # params"
      and acc: "uriAccepted uri"
      by (auto simp: acceptedRequestLine_def split: list.splits)
    from rl rne r0 req tgt acc n1 n2 vv show ?thesis by (rule GetHTTPHeader_one_header)
  qed
  have dd: "GetTraceInfo [''x-datadog-trace-id'' \<mapsto> v]
       = Inr (False, False, \<lparr>High = 0, Low = DecTraceOrSpanid2ID64 v\<rparr>, 0)"
    by (simp add: GetTraceInfo_def zeroID128_def)
  have w3c: "GetTraceInfo [''traceparent'' \<mapsto> v]
       = (case strings_Split v ''-'' of
            [ver, tid, psid, flags] \<Rightarrow>
              (case HexTraceid2ID128 tid of
                 Inl e \<Rightarrow> Inl e
               | Inr traceID \<Rightarrow>
                   (case HexSpanid2ID64 psid of
                      Inl e \<Rightarrow> Inl e
                    | Inr parentID \<Rightarrow> Inr (SampledW3C flags, True, traceID, parentID)))
          | _ \<Rightarrow> Inr (False, False, zeroID128, 0))"
    by (simp add: GetTraceInfo_def)
  have other: "GetTraceInfo [k \<mapsto> v] = Inr (False, False, zeroID128, 0)"
    if "k \<noteq> ''x-datadog-trace-id''" and "k \<noteq> ''traceparent''"
    using that by (simp add: GetTraceInfo_def)
  have absent: "GetTraceInfo headers = Inr (False, False, zeroID128, 0)"
    if "headers ''x-datadog-trace-id'' = None" and "headers ''traceparent'' = None"
    using that by (simp add: GetTraceInfo_def)
  have agree: "GetTraceInfo h1 = GetTraceInfo h2"
    if "h1 ''x-datadog-trace-id'' = h2 ''x-datadog-trace-id''"
      and "h1 ''x-datadog-parent-id'' = h2 ''x-datadog-parent-id''"
      and "h1 ''x-datadog-sampling-priority'' = h2 ''x-datadog-sampling-priority''"
      and "h1 ''traceparent'' = h2 ''traceparent''"
    unfolding GetTraceInfo_def that(1) that(2) that(3) that(4) by (rule refl)
  from parse dd w3c other absent agree show ?thesis by blast
qed

theorem GetTraceInfo_exact_names_witness:
  "GetHTTPHeader (''GET / HTTP/1.1'' @ CRLF @ ''X-Datadog-Trace-Id'' @ '':'' @ '' 5'' @ CRLF)
     = Inr (Some [''X-Datadog-Trace-Id'' \<mapsto> ''5'']) \<and>
   GetTraceInfo [''X-Datadog-Trace-Id'' \<mapsto> ''5''] = Inr (False, False, zeroID128, 0) \<and>
   GetTraceInfo [''X-Datadog-Trace-Id'' \<mapsto> ''5'', ''Traceparent'' \<mapsto> ''00-1-2-01'']
     = Inr (False, False, zeroID128, 0) \<and>
   GetTraceInfo [''x-datadog-trace-id'' \<mapsto> ''5'', ''Accept'' \<mapsto> ''text/html'']
     = GetTraceInfo [''x-datadog-trace-id'' \<mapsto> ''5'']"
proof -
  have a: "acceptedRequestLine ''GET / HTTP/1.1''"
    by (simp add: acceptedRequestLine_def strings_Split.simps Let_def uriAccepted_def)
  have t: "strings_TrimSpace '' 5'' = ''5''"
    by (simp add: strings_TrimSpace_def spaceRunes_def)
  have "GetHTTPHeader (''GET / HTTP/1.1'' @ CRLF @ ''X-Datadog-Trace-Id'' @ '':'' @ '' 5'' @ CRLF)
     = Inr (Some [''X-Datadog-Trace-Id'' \<mapsto> strings_TrimSpace '' 5''])"
    using a GetTraceInfo_exact_names
      [where rl = "''GET / HTTP/1.1''" and name = "''X-Datadog-Trace-Id''" and val = "'' 5''"]
    by simp
  then have p: "GetHTTPHeader
       (''GET / HTTP/1.1'' @ CRLF @ ''X-Datadog-Trace-Id'' @ '':'' @ '' 5'' @ CRLF)
     = Inr (Some [''X-Datadog-Trace-Id'' \<mapsto> ''5''])"
    by (simp only: t)
  have o: "GetTraceInfo [''X-Datadog-Trace-Id'' \<mapsto> ''5''] = Inr (False, False, zeroID128, 0)"
    using GetTraceInfo_exact_names [where k = "''X-Datadog-Trace-Id''" and v = "''5''"]
    by simp
  have rest: "GetTraceInfo [''X-Datadog-Trace-Id'' \<mapsto> ''5'', ''Traceparent'' \<mapsto> ''00-1-2-01'']
       = Inr (False, False, zeroID128, 0) \<and>
     GetTraceInfo [''x-datadog-trace-id'' \<mapsto> ''5'', ''Accept'' \<mapsto> ''text/html'']
       = GetTraceInfo [''x-datadog-trace-id'' \<mapsto> ''5'']"
    using GetTraceInfo_exact_names
      [where headers = "[''X-Datadog-Trace-Id'' \<mapsto> ''5'', ''Traceparent'' \<mapsto> ''00-1-2-01'']"
         and ?h1.0 = "[''x-datadog-trace-id'' \<mapsto> ''5'', ''Accept'' \<mapsto> ''text/html'']"
         and ?h2.0 = "[''x-datadog-trace-id'' \<mapsto> ''5'']"]
    by simp
  from p o rest show ?thesis by simp
qed

text \<open>
  The claim C2 as stated fails on a request that carries \<open>X-Datadog-Trace-Id\<close>: the
  parser keeps the name as received and the extractor does not find it, while the same
  request with the lower-case name gives trace ID 5.
\<close>

theorem GetTraceInfo_case_sensitive:
  "GetHTTPHeader (''GET / HTTP/1.1'' @ CRLF @ ''X-Datadog-Trace-Id: 5'' @ CRLF)
     = Inr (Some [''X-Datadog-Trace-Id'' \<mapsto> ''5'']) \<and>
   GetTraceInfo [''X-Datadog-Trace-Id'' \<mapsto> ''5''] = Inr (False, False, zeroID128, 0) \<and>
   GetHTTPHeader (''GET / HTTP/1.1'' @ CRLF @ ''x-datadog-trace-id: 5'' @ CRLF)
     = Inr (Some [''x-datadog-trace-id'' \<mapsto> ''5'']) \<and>
   GetTraceInfo [''x-datadog-trace-id'' \<mapsto> ''5'']
     = Inr (False, False, \<lparr>High = 0, Low = 5\<rparr>, 0)"
proof -
  have "GetHTTPHeader (''GET / HTTP/1.1'' @ CRLF @ ''X-Datadog-Trace-Id: 5'' @ CRLF)
     = Inr (Some [''X-Datadog-Trace-Id'' \<mapsto> ''5''])"
    by (simp add: parser_eval)
  moreover have "GetHTTPHeader (''GET / HTTP/1.1'' @ CRLF @ ''x-datadog-trace-id: 5'' @ CRLF)
     = Inr (Some [''x-datadog-trace-id'' \<mapsto> ''5''])"
    by (simp add: parser_eval)
  moreover have "GetTraceInfo [''X-Datadog-Trace-Id'' \<mapsto> ''5'']
     = Inr (False, False, zeroID128, 0)"
    by (simp add: GetTraceInfo_def)
  moreover have "GetTraceInfo [''x-datadog-trace-id'' \<mapsto> ''5'']
     = Inr (False, False, \<lparr>High = 0, Low = 5\<rparr>, 0)"
    by (simp add: GetTraceInfo_def dec_eval zeroID128_def)
  ultimately show ?thesis by simp
qed

text \<open>
  C6. When \<open>x-datadog-trace-id\<close> is present the DataDog branch gives the result, whatever
  \<open>traceparent\<close> holds; and the DataDog scenario of the specification gives
  \<open>(true, false, {High: 0, Low: 1234567890}, 42)\<close>.
\<close>

theorem GetTraceInfo_DataDog_first:
  "(headers ''x-datadog-trace-id'' = Some tid \<longrightarrow>
      GetTraceInfo (headers(''traceparent'' := tp)) =
        Inr (case headers ''x-datadog-sampling-priority'' of
               Some v \<Rightarrow> SampledDataDog v | None \<Rightarrow> False,
             False,
             \<lparr>High = 0, Low = DecTraceOrSpanid2ID64 tid\<rparr>,
             case headers ''x-datadog-parent-id'' of
               Some psid \<Rightarrow> DecTraceOrSpanid2ID64 psid | None \<Rightarrow> 0))
   \<and> GetTraceInfo [''x-datadog-trace-id'' \<mapsto> ''1234567890'',
                    ''x-datadog-parent-id'' \<mapsto> ''42'',
                    ''x-datadog-sampling-priority'' \<mapsto> ''1'']
       = Inr (True, False, \<lparr>High = 0, Low = 1234567890\<rparr>, 42)"
proof -
  have "GetTraceInfo [''x-datadog-trace-id'' \<mapsto> ''1234567890'',
                    ''x-datadog-parent-id'' \<mapsto> ''42'',
                    ''x-datadog-sampling-priority'' \<mapsto> ''1'']
       = Inr (True, False, \<lparr>High = 0, Low = 1234567890\<rparr>, 42)"
    by (simp add: GetTraceInfo_def dec_eval zeroID128_def SampledDataDog_def)
  then show ?thesis by (simp add: GetTraceInfo_def zeroID128_def)
qed

theorem GetTraceInfo_DataDog_first_witness:
  "GetTraceInfo [''x-datadog-trace-id'' \<mapsto> ''7'', ''x-datadog-parent-id'' \<mapsto> ''3'',
       ''traceparent'' \<mapsto> ''00-4bf92f3577b34da6a3ce929d0e0e4736-00f067aa0ba902b7-01'']
     = Inr (False, False, \<lparr>High = 0, Low = 7\<rparr>, 3)"
  using GetTraceInfo_DataDog_first
    [where headers = "[''x-datadog-trace-id'' \<mapsto> ''7'', ''x-datadog-parent-id'' \<mapsto> ''3'']"
       and tid = "''7''"
       and tp = "Some ''00-4bf92f3577b34da6a3ce929d0e0e4736-00f067aa0ba902b7-01''"]
  by (simp add: dec_eval)


section \<open>Properties of the process filter\<close>

subsection \<open>Membership in the live map and in the deleted-PID cache\<close>

lemma isLive_iff: "isLive p pid \<longleftrightarrow> pid \<in> fst ` set (Pid2ProcInfo p)"
  by (simp add: isLive_def)

lemma isDeleted_iff: "isDeleted p pid \<longleftrightarrow> pid \<in> fst ` set (ll (PidDeleted p))"
  by (simp add: isDeleted_def)

lemma lru_Add_keys_subset: "fst ` set (ll (lru_Add k v c)) \<subseteq> insert k (fst ` set (ll c))"
  by (auto simp: lru_Add_def Let_def split: option.splits dest: in_set_butlastD)

lemma lru_Add_key_present:
  assumes "0 \<le> MaxEntries c"
  shows "k \<in> fst ` set (ll (lru_Add k v c))"
proof (cases "map_of (ll c) k")
  case (Some w)
  then show ?thesis by (simp add: lru_Add_def)
next
  case None
  show ?thesis
  proof (cases "MaxEntries c \<noteq> 0 \<and> int (length ((k, v) # ll c)) > MaxEntries c")
    case True
    with assms have "ll c \<noteq> []" by auto
    then have "butlast ((k, v) # ll c) = (k, v) # butlast (ll c)" by simp
    with None True show ?thesis by (simp add: lru_Add_def Let_def)
  next
    case False
    with None show ?thesis by (auto simp: lru_Add_def Let_def)
  qed
qed

lemma lru_Get_keys: "fst ` set (ll (snd (lru_Get k c))) = fst ` set (ll c)"
proof (cases "map_of (ll c) k")
  case None
  then show ?thesis by (simp add: lru_Get_def)
next
  case (Some v)
  then have "k \<in> fst ` set (ll c)" by (meson domI dom_map_of_conv_image_fst [THEN equalityD1, THEN subsetD])
  with Some show ?thesis by (auto simp: lru_Get_def)
qed

lemma lru_Add_MaxEntries: "MaxEntries (lru_Add k v c) = MaxEntries c"
  by (simp add: lru_Add_def Let_def split: option.splits)

lemma lru_Get_MaxEntries: "MaxEntries (snd (lru_Get k c)) = MaxEntries c"
  by (simp add: lru_Get_def split: option.splits)

lemma Filter_live: "fst ` set (Pid2ProcInfo (snd (Filter pid name path env p)))
    = insert pid (fst ` set (Pid2ProcInfo p))"
  by (simp add: Filter_def Let_def dom_update)

lemma Filter_lru: "PidDeleted (snd (Filter pid name path env p)) = PidDeleted p"
  by (simp add: Filter_def Let_def)

lemma Delete_live: "fst ` set (Pid2ProcInfo (Delete pid p)) = fst ` set (Pid2ProcInfo p) - {pid}"
proof (cases "map_of (Pid2ProcInfo p) pid")
  case None
  then have "pid \<notin> fst ` set (Pid2ProcInfo p)" by (simp add: map_of_eq_None_iff)
  with None show ?thesis by (simp add: Delete_def)
next
  case (Some v)
  have "fst ` set (AList.delete pid (Pid2ProcInfo p)) = fst ` set (Pid2ProcInfo p) - {pid}"
    by (auto simp: AList.delete_eq)
  with Some show ?thesis by (simp add: Delete_def)
qed

lemma Delete_lru_subset:
  "fst ` set (ll (PidDeleted (Delete pid p))) \<subseteq> insert pid (fst ` set (ll (PidDeleted p)))"
proof (cases "map_of (Pid2ProcInfo p) pid")
  case None
  then show ?thesis by (auto simp: Delete_def)
next
  case (Some v)
  then have "PidDeleted (Delete pid p) = lru_Add pid v (PidDeleted p)" by (simp add: Delete_def)
  then show ?thesis using lru_Add_keys_subset [of pid v "PidDeleted p"] by simp
qed

lemma GetProcInfo_state:
  "snd (GetProcInfo pid p) = p \<or>
   snd (GetProcInfo pid p) = p\<lparr>PidDeleted := snd (lru_Get pid (PidDeleted p))\<rparr>"
proof -
  obtain r c where g: "lru_Get pid (PidDeleted p) = (r, c)" by (cases "lru_Get pid (PidDeleted p)")
  show ?thesis
  proof (cases "if length (Pid2ProcInfo p) > 0 then map_of (Pid2ProcInfo p) pid else None")
    case None
    then show ?thesis unfolding GetProcInfo_def g
      by (cases r; cases "the r") (simp_all del: length_greater_0_conv)
  next
    case (Some v)
    then show ?thesis unfolding GetProcInfo_def g
      by (cases v; cases r; cases "the r") (simp_all del: length_greater_0_conv)
  qed
qed

lemma GetProcInfo_live: "Pid2ProcInfo (snd (GetProcInfo pid p)) = Pid2ProcInfo p"
  using GetProcInfo_state [of pid p] by (elim disjE) simp_all

lemma GetProcInfo_lru:
  "fst ` set (ll (PidDeleted (snd (GetProcInfo pid p)))) = fst ` set (ll (PidDeleted p))"
  using GetProcInfo_state [of pid p] by (elim disjE) (simp_all add: lru_Get_keys)


lemma step_one_pid:
  assumes "\<not> (isLive p pid \<and> isDeleted p pid)"
    and "\<And>name path env. op = OpFilter pid name path env \<Longrightarrow> \<not> isDeleted p pid"
  shows "\<not> (isLive (step p op) pid \<and> isDeleted (step p op) pid)"
proof (cases op)
  case (OpFilter pid' name path env)
  show ?thesis
  proof (cases "pid' = pid")
    case True
    with assms(2) OpFilter have "\<not> isDeleted p pid" by simp
    then show ?thesis unfolding OpFilter by (simp add: isDeleted_iff Filter_lru)
  next
    case False
    with assms(1) show ?thesis unfolding OpFilter
      by (simp add: isLive_iff isDeleted_iff Filter_live Filter_lru)
  qed
next
  case (OpDelete pid')
  show ?thesis
  proof (cases "pid' = pid")
    case True
    then show ?thesis unfolding OpDelete by (simp add: isLive_iff Delete_live)
  next
    case False
    have "isDeleted (Delete pid' p) pid \<Longrightarrow> isDeleted p pid"
      using Delete_lru_subset [of pid' p] False by (auto simp: isDeleted_iff)
    moreover have "isLive (Delete pid' p) pid \<Longrightarrow> isLive p pid"
      by (simp add: isLive_iff Delete_live)
    ultimately show ?thesis using assms(1) unfolding OpDelete by auto
  qed
next
  case (OpGetProcInfo pid')
  with assms(1) show ?thesis
    by (simp add: isLive_iff isDeleted_iff GetProcInfo_live GetProcInfo_lru)
qed

lemma run_Cons: "run p (op # ops) = run (step p op) ops"
  by (simp add: run_def)

lemma run_one_pid:
  "\<not> (isLive p pid \<and> isDeleted p pid) \<Longrightarrow> noRefilterOf pid p ops \<Longrightarrow>
     \<not> (isLive (run p (take n ops)) pid \<and> isDeleted (run p (take n ops)) pid)"
proof (induction ops arbitrary: p n)
  case Nil
  then show ?case by (simp add: run_def)
next
  case (Cons op ops)
  show ?case
  proof (cases n)
    case 0
    with Cons.prems show ?thesis by (simp add: run_def)
  next
    case (Suc m)
    have guard: "\<And>name path env. op = OpFilter pid name path env \<Longrightarrow> \<not> isDeleted p pid"
      using Cons.prems(2) by auto
    have d: "\<not> (isLive (step p op) pid \<and> isDeleted (step p op) pid)"
      using Cons.prems(1) guard by (rule step_one_pid)
    have "noRefilterOf pid (step p op) ops" using Cons.prems(2) by (cases op) simp_all
    from Cons.IH [OF d this] show ?thesis by (simp add: Suc run_Cons)
  qed
qed

lemma New_not_live: "\<not> isLive (NewProcessFilter a b c d e) pid"
  by (simp add: isLive_def NewProcessFilter_def)

lemma GetProcInfo_live_hit:
  "map_of (Pid2ProcInfo p) pid = Some (Some v) \<Longrightarrow> GetProcInfo pid p = ((Some v, True), p)"
proof -
  assume m: "map_of (Pid2ProcInfo p) pid = Some (Some v)"
  then have "Pid2ProcInfo p \<noteq> []" by auto
  with m show ?thesis by (simp add: GetProcInfo_def)
qed

lemma Delete_moves:
  assumes "isLive p pid" and "0 \<le> MaxEntries (PidDeleted p)"
  shows "\<not> isLive (Delete pid p) pid \<and> isDeleted (Delete pid p) pid"
proof -
  from assms(1) obtain v where v: "map_of (Pid2ProcInfo p) pid = Some v"
    by (cases "map_of (Pid2ProcInfo p) pid") (auto simp: isLive_iff map_of_eq_None_iff)
  then have "PidDeleted (Delete pid p) = lru_Add pid v (PidDeleted p)" by (simp add: Delete_def)
  then have "isDeleted (Delete pid p) pid"
    using lru_Add_key_present [OF assms(2), of pid v] by (simp add: isDeleted_iff)
  then show ?thesis by (simp add: isLive_iff Delete_live)
qed

lemma Filter_refilter:
  "isDeleted p pid \<Longrightarrow>
     isLive (snd (Filter pid name path env p)) pid \<and>
     isDeleted (snd (Filter pid name path env p)) pid"
  by (simp add: isLive_iff isDeleted_iff Filter_live Filter_lru)


lemma step_MaxEntries: "MaxEntries (PidDeleted (step p op)) = MaxEntries (PidDeleted p)"
proof (cases op)
  case (OpFilter pid name path env)
  then show ?thesis by (simp add: Filter_lru)
next
  case (OpDelete pid)
  then show ?thesis by (simp add: Delete_def lru_Add_MaxEntries split: option.splits)
next
  case (OpGetProcInfo pid)
  then show ?thesis
    using GetProcInfo_state [of pid p] by (auto simp: lru_Get_MaxEntries)
qed

lemma run_MaxEntries: "MaxEntries (PidDeleted (run p ops)) = MaxEntries (PidDeleted p)"
  by (induction ops arbitrary: p) (simp_all add: run_def step_MaxEntries)

lemma New_MaxEntries: "MaxEntries (PidDeleted (NewProcessFilter a b c d e)) = 1024"
  by (simp add: NewProcessFilter_def lru_New_def)

lemmas filter_eval = run_def Filter_def Delete_def GetProcInfo_def NewProcessFilter_def
  lru_New_def lru_Add_def lru_Get_def lru_Len_def isLive_def isDeleted_def Let_def


subsection \<open>The admission decision\<close>

lemma AllowTrace_assignService: "AllowTrace (assignService ks env pinfo) = AllowTrace pinfo"
  by (induction ks) (simp_all split: option.splits)

lemma denyEnv_False: "denyEnv rules env False = False"
  by (induction rules) auto

lemma denyEnv_empty: "denyEnv rules [] f = f"
  by (induction rules) auto

lemma admitEnv_empty: "admitEnv rules [] f = f"
  by (induction rules) auto

lemma Filter_stored:
  "map_of (Pid2ProcInfo (snd (Filter pid name path env p))) pid
     = Some (Some (if length env > 0 \<and> length (SvcAssignEnv p) > 0
          then assignService (SvcAssignEnv p) env
                 \<lparr>Name = name, Service = name, AllowTrace = fst (Filter pid name path env p)\<rparr>
          else \<lparr>Name = name, Service = name, AllowTrace = fst (Filter pid name path env p)\<rparr>))"
  by (simp add: Filter_def Let_def update_conv' del: length_greater_0_conv)

lemma Filter_stored_AllowTrace:
  "map_option (map_option AllowTrace) (map_of (Pid2ProcInfo (snd (Filter pid name path env p))) pid)
     = Some (Some (fst (Filter pid name path env p)))"
  unfolding Filter_stored by (simp add: AllowTrace_assignService del: length_greater_0_conv)

lemma Filter_denied_name:
  "RuleProcessName p name = Some False \<Longrightarrow> \<not> fst (Filter pid name path env p)"
  by (simp add: Filter_def Let_def denyEnv_False)

lemma Filter_scenario:
  assumes "RuleProcessName p = [''curl'' \<mapsto> True, ''nginx'' \<mapsto> False]" and "\<not> Disable p"
  shows "fst (Filter pid ''curl'' path [] p) \<and> \<not> fst (Filter pid' ''nginx'' path' [] p)"
  using assms by (simp add: Filter_def Let_def denyEnv_empty admitEnv_empty)


lemma Filter_stored_info:
  "map_of (Pid2ProcInfo (snd (Filter pid name path env p))) pid
     = Some (Some (filterInfo name env p (fst (Filter pid name path env p))))"
  unfolding filterInfo_def by (rule Filter_stored)

lemma GetProcInfo_after_Filter:
  "GetProcInfo pid (snd (Filter pid name path env p))
     = ((Some (filterInfo name env p (fst (Filter pid name path env p))), True),
        snd (Filter pid name path env p))"
  using Filter_stored_info by (rule GetProcInfo_live_hit)

lemma filterInfo_Name: "Name (filterInfo name env p f) = name"
proof -
  have "\<And>i. Name (assignService ks env i) = Name i" for ks
    by (induction ks) (simp_all split: option.splits)
  then show ?thesis by (simp add: filterInfo_def del: length_greater_0_conv)
qed

lemma filterInfo_AllowTrace: "AllowTrace (filterInfo name env p f) = f"
  by (simp add: filterInfo_def AllowTrace_assignService del: length_greater_0_conv)

text \<open>
  The decision as a formula. It depends on the set of rules in \<open>RuleEnv\<close> only, so the
  order in which Go ranges over that map does not matter.
\<close>

lemma admitEnv_Cons:
  "admitEnv (r # rules) env f =
     (if ruleApplies env r then (if snd r then True else f) else admitEnv rules env f)"
  by (cases r) (simp add: ruleApplies_def)

lemma denyEnv_Cons:
  "denyEnv (r # rules) env f = denyEnv rules env (if ruleApplies env r \<and> \<not> snd r then False else f)"
  by (cases r) (simp add: ruleApplies_def)

lemma admitEnv_formula:
  "list_all (\<lambda>r. ruleApplies env r \<longrightarrow> snd r) rules \<Longrightarrow>
     admitEnv rules env False \<longleftrightarrow> list_ex (ruleApplies env) rules"
proof (induction rules)
  case Nil
  show ?case by simp
next
  case (Cons r rules)
  then show ?case by (cases "ruleApplies env r") (simp_all add: admitEnv_Cons del: admitEnv.simps)
qed

lemma denyEnv_formula:
  "denyEnv rules env f \<longleftrightarrow> f \<and> list_all (\<lambda>r. ruleApplies env r \<longrightarrow> snd r) rules"
proof (induction rules arbitrary: f)
  case Nil
  show ?case by simp
next
  case (Cons r rules)
  show ?case unfolding denyEnv_Cons Cons.IH by auto
qed

lemma Filter_formula:
  "fst (Filter pid name path env p) \<longleftrightarrow>
     \<not> Disable p \<and> RuleProcessName p name \<noteq> Some False \<and>
     list_all (\<lambda>r. ruleApplies env r \<longrightarrow> snd r) (RuleEnv p) \<and>
     (list_ex (ruleApplies env) (RuleEnv p) \<or> RuleProcessName p name = Some True \<or>
      RulePath p path \<noteq> None \<or> AnyProcess p)"
proof -
  have f: "fst (Filter pid name path env p) =
     (if Disable p then False
      else denyEnv (RuleEnv p) env
        (if RuleProcessName p name = Some False then False
         else if RuleProcessName p name = Some True then True
         else if RulePath p path \<noteq> None then True
         else if AnyProcess p then True
         else admitEnv (RuleEnv p) env False))"
    by (simp add: Filter_def Let_def)
  show ?thesis
  proof (cases "list_all (\<lambda>r. ruleApplies env r \<longrightarrow> snd r) (RuleEnv p)")
    case True
    show ?thesis unfolding f denyEnv_formula admitEnv_formula [OF True] using True by auto
  next
    case False
    then show ?thesis unfolding f denyEnv_formula by simp
  qed
qed

text \<open>The service-assignment scenario of the specification.\<close>

lemma Filter_service_assignment:
  "fst (fst (GetProcInfo 3 (snd (Filter 3 ''app'' ''/usr/bin/app''
       [(''OTEL_SERVICE_NAME'', ''checkout'')]
       (NewProcessFilter [''DD_SERVICE'', ''OTEL_SERVICE_NAME''] [] Map.empty True False)))))
   = Some \<lparr>Name = ''app'', Service = ''checkout'', AllowTrace = True\<rparr>"
  by (simp add: filter_eval)

subsection \<open>The claims about the process filter\<close>

text \<open>
  C1, as the code has it. From \<open>NewProcessFilter\<close> on, \<open>Delete\<close> on a live PID removes it
  from the live map and inserts it into the deleted-PID cache in one step. A given PID is
  in at most one of the two containers after every prefix of a sequence of operations in
  which \<open>Filter\<close> is never run on that PID while it is in the cache. \<open>Filter\<close> itself
  never touches the cache: run on a PID that is in the cache, it leaves the PID in both
  containers, and \<open>GetProcInfo\<close> then answers from the live map, with the record that
  \<open>Filter\<close> has just stored.
\<close>

theorem ProcessFilter_containers:
  "(isLive (run (NewProcessFilter svc re rpn anyp dis) ops) pid \<longrightarrow>
      \<not> isLive (Delete pid (run (NewProcessFilter svc re rpn anyp dis) ops)) pid \<and>
      isDeleted (Delete pid (run (NewProcessFilter svc re rpn anyp dis) ops)) pid)
   \<and> (noRefilterOf pid (NewProcessFilter svc re rpn anyp dis) ops \<longrightarrow>
      \<not> (isLive (run (NewProcessFilter svc re rpn anyp dis) (take n ops)) pid \<and>
         isDeleted (run (NewProcessFilter svc re rpn anyp dis) (take n ops)) pid))
   \<and> (isDeleted p pid' \<longrightarrow>
      isLive (snd (Filter pid' name path env p)) pid' \<and>
      isDeleted (snd (Filter pid' name path env p)) pid' \<and>
      GetProcInfo pid' (snd (Filter pid' name path env p))
        = ((Some (filterInfo name env p (fst (Filter pid' name path env p))), True),
           snd (Filter pid' name path env p)) \<and>
      Name (filterInfo name env p (fst (Filter pid' name path env p))) = name \<and>
      AllowTrace (filterInfo name env p (fst (Filter pid' name path env p)))
        = fst (Filter pid' name path env p))"
proof -
  let ?N = "NewProcessFilter svc re rpn anyp dis"
  have "0 \<le> MaxEntries (PidDeleted (run ?N ops))"
    by (simp add: run_MaxEntries New_MaxEntries)
  then have a: "isLive (run ?N ops) pid \<longrightarrow>
      \<not> isLive (Delete pid (run ?N ops)) pid \<and> isDeleted (Delete pid (run ?N ops)) pid"
    using Delete_moves [of "run ?N ops" pid] by blast
  have "\<not> (isLive ?N pid \<and> isDeleted ?N pid)" by (simp add: New_not_live)
  then have b: "noRefilterOf pid ?N ops \<longrightarrow>
      \<not> (isLive (run ?N (take n ops)) pid \<and> isDeleted (run ?N (take n ops)) pid)"
    using run_one_pid by blast
  have c: "isDeleted p pid' \<longrightarrow>
      isLive (snd (Filter pid' name path env p)) pid' \<and>
      isDeleted (snd (Filter pid' name path env p)) pid'"
    using Filter_refilter by blast
  from a b c show ?thesis
    by (simp add: GetProcInfo_after_Filter filterInfo_Name filterInfo_AllowTrace)
qed

theorem ProcessFilter_containers_witness:
  "\<not> isLive (Delete 1 (run (NewProcessFilter [] [] Map.empty True False)
        [OpFilter 1 ''sh'' ''/bin/sh'' []])) 1 \<and>
   isDeleted (Delete 1 (run (NewProcessFilter [] [] Map.empty True False)
        [OpFilter 1 ''sh'' ''/bin/sh'' []])) 1 \<and>
   \<not> (isLive (run (NewProcessFilter [] [] Map.empty True False)
        [OpFilter 1 ''sh'' ''/bin/sh'' [], OpFilter 2 ''ls'' ''/bin/ls'' [], OpDelete 1,
         OpGetProcInfo 1, OpDelete 2, OpFilter 2 ''ls'' ''/bin/ls'' []]) 1 \<and>
      isDeleted (run (NewProcessFilter [] [] Map.empty True False)
        [OpFilter 1 ''sh'' ''/bin/sh'' [], OpFilter 2 ''ls'' ''/bin/ls'' [], OpDelete 1,
         OpGetProcInfo 1, OpDelete 2, OpFilter 2 ''ls'' ''/bin/ls'' []]) 1) \<and>
   isLive (snd (Filter 1 ''bash'' ''/bin/bash'' [] (run (NewProcessFilter [] [] Map.empty True False)
        [OpFilter 1 ''sh'' ''/bin/sh'' [], OpDelete 1]))) 1 \<and>
   isDeleted (snd (Filter 1 ''bash'' ''/bin/bash'' [] (run (NewProcessFilter [] [] Map.empty True False)
        [OpFilter 1 ''sh'' ''/bin/sh'' [], OpDelete 1]))) 1 \<and>
   fst (GetProcInfo 1 (snd (Filter 1 ''bash'' ''/bin/bash'' []
        (run (NewProcessFilter [] [] Map.empty True False)
           [OpFilter 1 ''sh'' ''/bin/sh'' [], OpDelete 1]))))
     = (Some \<lparr>Name = ''bash'', Service = ''bash'', AllowTrace = True\<rparr>, True)"
proof -
  let ?N = "NewProcessFilter [] [] Map.empty True False"
  let ?ops = "[OpFilter 1 ''sh'' ''/bin/sh'' [], OpFilter 2 ''ls'' ''/bin/ls'' [], OpDelete 1,
         OpGetProcInfo 1, OpDelete 2, OpFilter 2 ''ls'' ''/bin/ls'' []]"
  let ?P = "run ?N [OpFilter 1 ''sh'' ''/bin/sh'' [], OpDelete 1]"
  have h1: "isLive (run ?N [OpFilter 1 ''sh'' ''/bin/sh'' []]) 1"
    by (simp add: filter_eval)
  have h3: "isDeleted ?P 1"
    by (simp add: filter_eval)
  have t1: "\<not> isLive (Delete 1 (run ?N [OpFilter 1 ''sh'' ''/bin/sh'' []])) 1 \<and>
      isDeleted (Delete 1 (run ?N [OpFilter 1 ''sh'' ''/bin/sh'' []])) 1"
    using h1 ProcessFilter_containers [where svc = "[]" and re = "[]" and rpn = Map.empty
        and anyp = True and dis = False and ops = "[OpFilter 1 ''sh'' ''/bin/sh'' []]"
        and pid = 1]
    by blast
  have h2: "noRefilterOf 1 ?N ?ops"
    by (simp add: filter_eval)
  have t2: "\<not> (isLive (run ?N (take 6 ?ops)) 1 \<and> isDeleted (run ?N (take 6 ?ops)) 1)"
    using h2 ProcessFilter_containers [where svc = "[]" and re = "[]" and rpn = Map.empty
        and anyp = True and dis = False and n = 6 and ops = ?ops and pid = 1]
    by blast
  have fi: "filterInfo ''bash'' [] ?P (fst (Filter 1 ''bash'' ''/bin/bash'' [] ?P))
      = \<lparr>Name = ''bash'', Service = ''bash'', AllowTrace = True\<rparr>"
    by (simp add: filterInfo_def filter_eval)
  have t3: "isLive (snd (Filter 1 ''bash'' ''/bin/bash'' [] ?P)) 1 \<and>
      isDeleted (snd (Filter 1 ''bash'' ''/bin/bash'' [] ?P)) 1 \<and>
      GetProcInfo 1 (snd (Filter 1 ''bash'' ''/bin/bash'' [] ?P))
        = ((Some (filterInfo ''bash'' [] ?P (fst (Filter 1 ''bash'' ''/bin/bash'' [] ?P))), True),
           snd (Filter 1 ''bash'' ''/bin/bash'' [] ?P))"
    using h3 ProcessFilter_containers
      [where p = ?P and pid' = 1 and name = "''bash''" and path = "''/bin/bash''" and env = "[]"]
    by blast
  from t1 t2 t3 fi show ?thesis by simp
qed


text \<open>
  The claim C1 as stated fails: after \<open>Filter\<close>, \<open>Delete\<close> and \<open>Filter\<close> again on PID 1,
  the PID is in the live map and in the deleted-PID cache.
\<close>

theorem ProcessFilter_pid_in_both:
  "isLive (run (NewProcessFilter [] [] Map.empty False False)
      [OpFilter 1 ''sh'' ''/bin/sh'' [], OpDelete 1, OpFilter 1 ''sh'' ''/bin/sh'' []]) 1 \<and>
   isDeleted (run (NewProcessFilter [] [] Map.empty False False)
      [OpFilter 1 ''sh'' ''/bin/sh'' [], OpDelete 1, OpFilter 1 ''sh'' ''/bin/sh'' []]) 1"
  by (simp add: filter_eval)

text \<open>
  C8. With the rules \<open>{"curl": true, "nginx": false}\<close>, \<open>AnyProcess = false\<close> and a
  filter that is not disabled, \<open>Filter\<close> on an empty environment admits \<open>curl\<close> and
  refuses \<open>nginx\<close>. For every input, a process-name rule of polarity \<open>false\<close> makes the
  returned admission and the stored \<open>AllowTrace\<close> false.
\<close>

theorem Filter_process_name_rules:
  "(RuleProcessName p = [''curl'' \<mapsto> True, ''nginx'' \<mapsto> False] \<and> \<not> AnyProcess p \<and>
    \<not> Disable p \<longrightarrow>
      fst (Filter pid ''curl'' path [] p) \<and> \<not> fst (Filter pid' ''nginx'' path' [] p))
   \<and> (RuleProcessName q name = Some False \<longrightarrow>
      \<not> fst (Filter pid name path env q) \<and>
      map_option (map_option AllowTrace)
        (map_of (Pid2ProcInfo (snd (Filter pid name path env q))) pid) = Some (Some False))"
  using Filter_scenario [of p pid path pid' path'] Filter_denied_name [of q name pid path env]
    Filter_stored_AllowTrace [of pid name path env q]
  by auto

theorem Filter_process_name_rules_witness:
  "fst (Filter 1 ''curl'' ''/usr/bin/curl'' []
      (NewProcessFilter [] [] [''curl'' \<mapsto> True, ''nginx'' \<mapsto> False] False False)) \<and>
   \<not> fst (Filter 2 ''nginx'' ''/usr/sbin/nginx'' []
      (NewProcessFilter [] [] [''curl'' \<mapsto> True, ''nginx'' \<mapsto> False] False False)) \<and>
   \<not> fst (Filter 1 ''nginx'' ''/usr/bin/curl'' [(''HOME'', ''/root'')]
      (NewProcessFilter [] [(''HOME'', True)] [''curl'' \<mapsto> True, ''nginx'' \<mapsto> False] True False))"
  using Filter_process_name_rules
    [where p = "NewProcessFilter [] [] [''curl'' \<mapsto> True, ''nginx'' \<mapsto> False] False False"
       and pid = 1 and path = "''/usr/bin/curl''" and pid' = 2 and path' = "''/usr/sbin/nginx''"
       and q = "NewProcessFilter [] [(''HOME'', True)] [''curl'' \<mapsto> True, ''nginx'' \<mapsto> False]
                  True False"
       and name = "''nginx''" and env = "[(''HOME'', ''/root'')]"]
  by (simp add: NewProcessFilter_def)

text \<open>A disabled filter admits nothing.\<close>

lemma Filter_disabled: "Disable p \<Longrightarrow> \<not> fst (Filter pid name path env p)"
  by (simp add: Filter_def Let_def)

section \<open>Properties of the ID generator and of the buffer pool\<close>

lemma genID128_nil: "ulid st = None \<Longrightarrow> genID128 ID st = ((None, False), st)"
  by (simp add: genID128_def)

lemma genID128_calls_nil:
  "ulid st = None \<Longrightarrow> genID128_calls ID n st = (replicate n (None, False), st)"
  by (induction n) (simp_all add: genID128_nil)


text \<open>
  C9. If \<open>initULID\<close> leaves \<open>_ulid\<close> nil, every later call of \<open>genID128\<close> returns
  \<open>(nil, false)\<close> and leaves the state as it is.
\<close>

theorem genID128_inert:
  "ulid (initULID newULID st) = None \<longrightarrow>
     genID128 ID (initULID newULID st) = ((None, False), initULID newULID st) \<and>
     genID128_calls ID n (initULID newULID st)
       = (replicate n (None, False), initULID newULID st)"
  by (simp add: genID128_nil genID128_calls_nil)

theorem genID128_inert_witness:
  "genID128_calls (\<lambda>u :: nat. ((Some zeroID128, True), Suc u)) 3
       (initULID (None, Some ''no entropy'') \<lparr>ulid = Some 0\<rparr>)
     = ([(None, False), (None, False), (None, False)], \<lparr>ulid = None\<rparr>)"
  using genID128_inert [where newULID = "(None, Some ''no entropy'')" and st = "\<lparr>ulid = Some (0::nat)\<rparr>"
      and ID = "\<lambda>u :: nat. ((Some zeroID128, True), Suc u)" and n = 3]
  by (simp add: initULID_def numeral_eq_Suc)


text \<open>
  C10. \<open>putNetwrkData\<close> on a buffer zeroes the metadata fields, truncates \<open>Payload\<close> to
  length 0 with its capacity and backing array kept, changes no other field and no other
  buffer, and puts the buffer into the pool; on \<open>nil\<close> it changes nothing.
\<close>

theorem putNetwrkData_resets:
  "(heap st a = Some d \<longrightarrow>
      heap (putNetwrkData (Some a) st)
        = (heap st)(a \<mapsto> d\<lparr>Conn := 0, ConnUniID := 0, ActSize := 0, TCPSeq := 0,
             Thread := (0, 0), TS := 0, Fn := 0, TSTail := 0, Index := 0,
             Payload := (Payload d)\<lparr>len := 0\<rparr>\<rparr>) \<and>
      netwrksyncPool (putNetwrkData (Some a) st) = a # netwrksyncPool st \<and>
      l7flow.more (putNetwrkData (Some a) st) = l7flow.more st \<and>
      (case heap (putNetwrkData (Some a) st) a of
         None \<Rightarrow> False
       | Some d' \<Rightarrow>
           Conn d' = 0 \<and> ConnUniID d' = 0 \<and> ActSize d' = 0 \<and> TCPSeq d' = 0 \<and>
           Thread d' = (0, 0) \<and> TS d' = 0 \<and> Fn d' = 0 \<and> TSTail d' = 0 \<and> Index d' = 0 \<and>
           len (Payload d') = 0 \<and> cap (Payload d') = cap (Payload d) \<and>
           backing (Payload d') = backing (Payload d) \<and>
           NetwrkData.more d' = NetwrkData.more d))
   \<and> putNetwrkData None st = st"
  by (simp add: putNetwrkData_def Let_def cap_def)

theorem putNetwrkData_resets_witness:
  "heap (putNetwrkData (Some 7)
      \<lparr>heap = [7 \<mapsto> \<lparr>Conn = 5 :: int, ConnUniID = 6 :: int, ActSize = 3, TCPSeq = 9,
           Thread = (1, 2), TS = 4, Fn = 1, TSTail = 8, Index = 2,
           Payload = \<lparr>backing = [1, 2, 3, 0], len = 3\<rparr>\<rparr>], netwrksyncPool = []\<rparr>) 7
   = Some \<lparr>Conn = 0, ConnUniID = 0, ActSize = 0, TCPSeq = 0,
           Thread = (0, 0), TS = 0, Fn = 0, TSTail = 0, Index = 0,
           Payload = \<lparr>backing = [1, 2, 3, 0], len = 0\<rparr>\<rparr>"
  using putNetwrkData_resets [where a = 7 and st = "\<lparr>heap = [7 \<mapsto> \<lparr>Conn = 5 :: int, ConnUniID = 6 :: int, ActSize = 3, TCPSeq = 9,
           Thread = (1, 2), TS = 4, Fn = 1, TSTail = 8, Index = 2,
           Payload = \<lparr>backing = [1, 2, 3, 0], len = 3\<rparr>\<rparr>], netwrksyncPool = []\<rparr>"
      and d = "\<lparr>Conn = 5 :: int, ConnUniID = 6 :: int, ActSize = 3, TCPSeq = 9,
           Thread = (1, 2), TS = 4, Fn = 1, TSTail = 8, Index = 2,
           Payload = \<lparr>backing = [1, 2, 3, 0], len = 3\<rparr>\<rparr>"]
  by simp


end
